theory Spec2Isabelle
  imports Complex_Main "HOL-Library.Sublist"
begin

section \<open>Values shared by the components\<close>

text \<open>
  The result of wagmi's \<open>useAccount()\<close> as far as the components read it: the optional
  account address, the connection flag and the optional chain object. A chain object is
  an immutable entry of the wallet configuration; \<open>chain_ref\<close> stands for its identity
  as a JavaScript object and \<open>chain_id\<close> for its field \<open>id\<close> (renamed, since \<open>id\<close> is
  the identity function of HOL).
\<close>

record chain =
  chain_ref :: nat
  chain_id :: int

record account =
  address :: "string option"
  isConnected :: bool
  chain :: "chain option"

text \<open>\<open>chain?.id\<close>: the id of the chain, \<open>undefined\<close> (here \<open>None\<close>) without a chain.\<close>

definition chain_id_opt :: "account \<Rightarrow> int option" where
  "chain_id_opt a = map_option chain_id (chain a)"

section \<open>App: the session and network guard\<close>

text \<open>
  The children that \<open>App\<close> puts below its root \<open>div\<close>. The heading and the connect
  button are always there; the paragraph and the two views are conditional.
\<close>

datatype app_child =
  Heading string
  | ConnectButton
  | Paragraph string
  | BalancesView
  | FaucetView

definition wrong_network_text :: string where
  "wrong_network_text = ''Please switch to the Morph Holesky network.''"

definition App_render :: "account \<Rightarrow> app_child list" where
  "App_render a =
     [Heading ''Morph L2 DApp'', ConnectButton]
     @ (if isConnected a \<and> chain_id_opt a \<noteq> Some 2810
        then [Paragraph wrong_network_text] else [])
     @ (if isConnected a \<and> chain_id_opt a = Some 2810
        then [BalancesView, FaucetView] else [])"

text \<open>
  The effect of \<open>App\<close>: a call of \<open>switchChain\<close> with \<open>chainId: 2810\<close> when the wallet is
  connected and the chain id is not 2810. The result lists the requests the effect
  hands to the wallet provider in one run.
\<close>

datatype wallet_request = SwitchChain int

definition App_effect :: "account \<Rightarrow> wallet_request list" where
  "App_effect a =
     (if isConnected a \<and> chain_id_opt a \<noteq> Some 2810 then [SwitchChain 2810] else [])"

text \<open>
  The dependency list of the effect is \<open>[isConnected, chain, switchChain]\<close>. React runs
  an effect after the first render, and after a later render when one dependency is not
  the same value (\<open>Object.is\<close>) as at the render before. A render of \<open>App\<close> is given by
  the account and the identity of the function \<open>switchChain\<close>. Two chain objects are
  the same when their records are equal: the same reference, which for an entry of the
  configuration, never mutated, has the same id.
\<close>

record app_render_input =
  acct :: account
  switchChain :: nat

type_synonym app_deps = "bool \<times> chain option \<times> nat"

definition App_deps :: "app_render_input \<Rightarrow> app_deps" where
  "App_deps r = (isConnected (acct r), chain (acct r), switchChain r)"

definition deps_changed :: "app_deps option \<Rightarrow> app_deps \<Rightarrow> bool" where
  "deps_changed prev cur = (case prev of None \<Rightarrow> True | Some p \<Rightarrow> p \<noteq> cur)"

text \<open>The requests issued by one render, given the dependencies of the render before.\<close>

definition App_commit :: "app_deps option \<Rightarrow> app_render_input \<Rightarrow> wallet_request list" where
  "App_commit prev r = (if deps_changed prev (App_deps r) then App_effect (acct r) else [])"

text \<open>The requests issued over a sequence of renders of one mounted \<open>App\<close>.\<close>

fun App_run :: "app_deps option \<Rightarrow> app_render_input list \<Rightarrow> wallet_request list" where
  "App_run prev [] = []"
| "App_run prev (r # rs) = App_commit prev r @ App_run (Some (App_deps r)) rs"

text \<open>
  The three states of the guard, read off the two conditions of \<open>App\<close>: the wrong-network
  state is the condition under which the paragraph is rendered and the switch is
  requested.
\<close>

definition wrong_network :: "account \<Rightarrow> bool" where
  "wrong_network a = (isConnected a \<and> chain_id_opt a \<noteq> Some 2810)"

definition network_ready :: "account \<Rightarrow> bool" where
  "network_ready a = (isConnected a \<and> chain_id_opt a = Some 2810)"

text \<open>
  The number of transitions into the wrong-network state over a sequence of renders:
  a render in that state whose predecessor (if any) was not in it. \<open>was\<close> tells whether
  the render before was in the wrong-network state (\<open>False\<close> before the first render).
\<close>

fun wrong_network_entries :: "bool \<Rightarrow> app_render_input list \<Rightarrow> nat" where
  "wrong_network_entries was [] = 0"
| "wrong_network_entries was (r # rs) =
     (if wrong_network (acct r) \<and> \<not> was then 1 else 0)
     + wrong_network_entries (wrong_network (acct r)) rs"

text \<open>
  Whether a dependency triple belongs to the wrong-network state, and whether the render
  before the current one did (\<open>None\<close>: there was no render before).
\<close>

definition deps_wrong_network :: "app_deps \<Rightarrow> bool" where
  "deps_wrong_network d =
     (case d of (conn, ch, sw) \<Rightarrow> conn \<and> map_option chain_id ch \<noteq> Some 2810)"

definition prev_wrong_network :: "app_deps option \<Rightarrow> bool" where
  "prev_wrong_network prev = (case prev of None \<Rightarrow> False | Some p \<Rightarrow> deps_wrong_network p)"

text \<open>
  The number of renders of a sequence that are in the wrong-network state and whose
  dependency triple differs from the one of the render before.
\<close>

fun wrong_network_dep_changes :: "app_deps option \<Rightarrow> app_render_input list \<Rightarrow> nat" where
  "wrong_network_dep_changes prev [] = 0"
| "wrong_network_dep_changes prev (r # rs) =
     (if deps_changed prev (App_deps r) \<and> wrong_network (acct r) then 1 else 0)
     + wrong_network_dep_changes (Some (App_deps r)) rs"

text \<open>Concrete accounts and renders used below.\<close>

definition morph_holesky :: chain where
  "morph_holesky = \<lparr>chain_ref = 0, chain_id = 2810\<rparr>"

definition mainnet :: chain where
  "mainnet = \<lparr>chain_ref = 1, chain_id = 1\<rparr>"

definition sepolia :: chain where
  "sepolia = \<lparr>chain_ref = 2, chain_id = 11155111\<rparr>"

definition connected_on :: "chain \<Rightarrow> account" where
  "connected_on c = \<lparr>address = Some ''0xA'', isConnected = True, chain = Some c\<rparr>"

definition render_on :: "chain \<Rightarrow> app_render_input" where
  "render_on c = \<lparr>acct = connected_on c, switchChain = 7\<rparr>"

section \<open>Faucet: the claim writer\<close>

text \<open>
  The error object that wagmi passes to \<open>onError\<close>, as far as the code and the tutorial
  read it: its optional \<open>message\<close> text. The state variable \<open>message\<close> is declared as a
  string, but \<open>onError\<close> receives \<open>error: any\<close> and stores it unconverted, so the values
  of the state variable are strings and error objects.
\<close>

datatype write_error = WriteError "string option"

datatype message_value = Text string | ErrorObject write_error

record faucet_state =
  loading :: bool
  message :: message_value

text \<open>\<open>useState(false)\<close> and \<open>useState('')\<close>.\<close>

definition Faucet_init :: faucet_state where
  "Faucet_init = \<lparr>loading = False, message = Text ''''\<rparr>"

text \<open>
  What the hooks hand to one render of \<open>Faucet\<close>: the account of \<open>useAccount\<close>, the flag
  \<open>isLoading\<close> of the simulation (named \<open>isSimulating\<close>), the flag \<open>isPending\<close> of the
  write (named \<open>isWriting\<close>), and whether \<open>claimWrite\<close> is defined (it is called as
  \<open>claimWrite?.(...)\<close>).
\<close>

record faucet_hooks =
  faucet_account :: account
  isSimulating :: bool
  isWriting :: bool
  claimWrite :: bool

text \<open>A write handed to the wallet: the name of the contract function.\<close>

datatype contract_write = WriteContract string

text \<open>
  \<open>handleClaim\<close> sets the busy flag, clears the message and calls \<open>claimWrite\<close>. The
  three happen in one event handler, before React renders again. The result is the
  new state and the writes issued.
\<close>

definition handleClaim :: "faucet_hooks \<Rightarrow> faucet_state \<Rightarrow> faucet_state \<times> contract_write list" where
  "handleClaim h s =
     (s\<lparr>loading := True, message := Text ''''\<rparr>,
      if claimWrite h then [WriteContract ''claim''] else [])"

text \<open>The two callbacks passed to \<open>claimWrite\<close>.\<close>

definition onSuccess :: "faucet_state \<Rightarrow> faucet_state" where
  "onSuccess s = s\<lparr>message := Text ''Claim successful!'', loading := False\<rparr>"

definition onError :: "write_error \<Rightarrow> faucet_state \<Rightarrow> faucet_state" where
  "onError error s = s\<lparr>message := ErrorObject error, loading := False\<rparr>"

text \<open>
  The callback as the tutorial of the repository prints it (tutorial.md,
  tutorial-part-1.md and tutorial-part-2.md):
  \<open>setMessage(error.message || 'Claim failed')\<close>. An absent or empty message is falsy.
\<close>

definition error_message_or :: "write_error \<Rightarrow> string \<Rightarrow> string" where
  "error_message_or error fallback =
     (case error of
        WriteError None \<Rightarrow> fallback
      | WriteError (Some m) \<Rightarrow> if m = '''' then fallback else m)"

definition onError_tutorial :: "write_error \<Rightarrow> faucet_state \<Rightarrow> faucet_state" where
  "onError_tutorial error s =
     s\<lparr>message := Text (error_message_or error ''Claim failed''), loading := False\<rparr>"

text \<open>
  The rendered component: the \<open>disabled\<close> attribute and the label of the button, the
  paragraph with the message (absent when \<open>message\<close> is the empty string, which is
  falsy), and whether the paragraph "Processing..." is there. An error object is truthy,
  so \<open>{message && <p>{message}</p>}\<close> makes it the child of a paragraph; React refuses an
  object as a child and throws, which ends the render.
\<close>

record faucet_view =
  button_disabled :: bool
  button_label :: string
  message_paragraph :: "string option"
  processing_paragraph :: bool

datatype react_error = ObjectAsChild

definition Faucet_render :: "faucet_hooks \<Rightarrow> faucet_state \<Rightarrow> react_error + faucet_view" where
  "Faucet_render h s =
     (case message s of
        ErrorObject e \<Rightarrow> Inl ObjectAsChild
      | Text m \<Rightarrow>
          Inr \<lparr>button_disabled = (\<not> isConnected (faucet_account h) \<or> loading s \<or> isSimulating h),
               button_label = (if loading s \<or> isSimulating h then ''Claiming...'' else ''Claim 1000 IT''),
               message_paragraph = (if m = '''' then None else Some m),
               processing_paragraph = (isWriting h \<or> isSimulating h)\<rparr>)"

text \<open>
  One mounted \<open>Faucet\<close> with its surroundings: the component state, the wallet account,
  the simulation flag, whether the write function is there, the number of writes
  submitted and not yet resolved, and the number of writes submitted so far.
\<close>

record faucet_sys =
  fstate :: faucet_state
  wallet :: account
  simulating :: bool
  write_fn :: bool
  outstanding :: nat
  submitted :: nat

text \<open>
  The events: a click on the button, the resolution of an outstanding write (which calls
  \<open>onSuccess\<close> or \<open>onError\<close>), and changes of what the hooks report.
\<close>

datatype faucet_event =
  Click
  | WriteSucceeded
  | WriteFailed write_error
  | AccountChanged account
  | SimulationChanged bool

definition Faucet_hooks :: "faucet_sys \<Rightarrow> faucet_hooks" where
  "Faucet_hooks y =
     \<lparr>faucet_account = wallet y, isSimulating = simulating y,
      isWriting = (0 < outstanding y), claimWrite = write_fn y\<rparr>"

text \<open>A click reaches \<open>handleClaim\<close> only when the button is rendered and not disabled.\<close>

definition click_enabled :: "faucet_sys \<Rightarrow> bool" where
  "click_enabled y =
     (case Faucet_render (Faucet_hooks y) (fstate y) of
        Inl e \<Rightarrow> False
      | Inr v \<Rightarrow> \<not> button_disabled v)"

fun Faucet_step :: "faucet_event \<Rightarrow> faucet_sys \<Rightarrow> faucet_sys" where
  "Faucet_step Click y =
     (if click_enabled y
      then (case handleClaim (Faucet_hooks y) (fstate y) of
              (s, ws) \<Rightarrow> y\<lparr>fstate := s, outstanding := outstanding y + length ws,
                            submitted := submitted y + length ws\<rparr>)
      else y)"
| "Faucet_step WriteSucceeded y =
     (if outstanding y = 0 then y
      else y\<lparr>fstate := onSuccess (fstate y), outstanding := outstanding y - 1\<rparr>)"
| "Faucet_step (WriteFailed error) y =
     (if outstanding y = 0 then y
      else y\<lparr>fstate := onError error (fstate y), outstanding := outstanding y - 1\<rparr>)"
| "Faucet_step (AccountChanged a) y = y\<lparr>wallet := a\<rparr>"
| "Faucet_step (SimulationChanged b) y = y\<lparr>simulating := b\<rparr>"

fun Faucet_run :: "faucet_event list \<Rightarrow> faucet_sys \<Rightarrow> faucet_sys" where
  "Faucet_run [] y = y"
| "Faucet_run (e # es) y = Faucet_run es (Faucet_step e y)"

text \<open>The component as mounted: initial state, no write submitted.\<close>

definition Faucet_mount :: "account \<Rightarrow> bool \<Rightarrow> bool \<Rightarrow> faucet_sys" where
  "Faucet_mount a sim w =
     \<lparr>fstate = Faucet_init, wallet = a, simulating = sim, write_fn = w,
      outstanding = 0, submitted = 0\<rparr>"

definition is_resolution :: "faucet_event \<Rightarrow> bool" where
  "is_resolution e = (case e of WriteSucceeded \<Rightarrow> True | WriteFailed x \<Rightarrow> True | _ \<Rightarrow> False)"

text \<open>
  The invariant of the busy flag: at most one write is outstanding, and while one is,
  the flag is set and the message is the empty string.
\<close>

definition busy_inv :: "faucet_sys \<Rightarrow> bool" where
  "busy_inv y =
     (outstanding y \<le> 1
      \<and> (0 < outstanding y \<longrightarrow> loading (fstate y) \<and> message (fstate y) = Text ''''))"

section \<open>Unit conversion\<close>

text \<open>
  The strings that \<open>BigInt.prototype.toString\<close>, \<open>padStart\<close>, \<open>slice\<close> and \<open>replace\<close>
  make, as the conversion uses them.
\<close>

definition digit_char :: "nat \<Rightarrow> char" where
  "digit_char n = ''0123456789'' ! n"

fun nat_toString :: "nat \<Rightarrow> string" where
  "nat_toString n =
     (if n < 10 then [digit_char n] else nat_toString (n div 10) @ [digit_char (n mod 10)])"

declare nat_toString.simps [simp del]

definition bigint_toString :: "int \<Rightarrow> string" where
  "bigint_toString v =
     (if v < 0 then CHR ''-'' # nat_toString (nat (- v)) else nat_toString (nat v))"

definition startsWith_minus :: "string \<Rightarrow> bool" where
  "startsWith_minus s = (case s of [] \<Rightarrow> False | c # cs \<Rightarrow> c = CHR ''-'')"

text \<open>\<open>s.padStart(n, '0')\<close>.\<close>

definition padStart :: "nat \<Rightarrow> string \<Rightarrow> string" where
  "padStart n s = replicate (n - length s) CHR ''0'' @ s"

text \<open>\<open>s.replace(/(0+)$/, '')\<close>: the string without its trailing zeros.\<close>

definition strip_trailing_zeros :: "string \<Rightarrow> string" where
  "strip_trailing_zeros s = rev (dropWhile (\<lambda>c. c = CHR ''0'') (rev s))"

text \<open>
  Modelled from the spec: \<open>formatUnits\<close>, which \<open>Balances\<close> imports from the package viem;
  its source is not part of the repository. The spec asks that the displayed amount be
  the raw integer balance scaled down by \<open>10^decimals\<close>, exactly, and gives "1000" for
  \<open>10^21\<close> at 18 decimals and "0" for 0. The definition covers an integer amount and a
  number of decimals, and shifts the decimal point of the digit string, as the package
  does: the digits of the absolute value are padded with zeros on the left to at least
  \<open>decimals\<close> digits and cut \<open>decimals\<close> digits from the right; the fraction loses its
  trailing zeros, an empty integer part is written "0", and a fraction that is left is
  appended after a point.
\<close>

definition formatUnits :: "int \<Rightarrow> nat \<Rightarrow> string" where
  "formatUnits v decimals =
     (let display0 = bigint_toString v;
          negative = startsWith_minus display0;
          display1 = (if negative then drop 1 display0 else display0);
          display = padStart decimals display1;
          cut = length display - decimals;
          integer = take cut display;
          fraction = strip_trailing_zeros (drop cut display)
      in (if negative then ''-'' else '''')
         @ (if integer = '''' then ''0'' else integer)
         @ (if fraction = '''' then '''' else ''.'' @ fraction))"

text \<open>
  Reading a decimal numeral back: an optional minus sign, a non-empty integer part and,
  after a point, a non-empty fraction. The value is a rational number; \<open>None\<close> when the
  string is not such a numeral. This is the yardstick for "scaled down exactly".
\<close>

definition digit_value :: "char \<Rightarrow> nat option" where
  "digit_value c = map_of (zip ''0123456789'' [0, 1, 2, 3, 4, 5, 6, 7, 8, 9]) c"

fun digits_value :: "nat \<Rightarrow> string \<Rightarrow> nat option" where
  "digits_value acc [] = Some acc"
| "digits_value acc (c # cs) =
     (case digit_value c of None \<Rightarrow> None | Some d \<Rightarrow> digits_value (10 * acc + d) cs)"

definition decimal_value :: "string \<Rightarrow> rat option" where
  "decimal_value s =
     (let negative = startsWith_minus s;
          body = (if negative then drop 1 s else s);
          ip = takeWhile (\<lambda>c. c \<noteq> CHR ''.'') body;
          rest = dropWhile (\<lambda>c. c \<noteq> CHR ''.'') body;
          fp = drop 1 rest
      in if ip = [] \<or> (rest \<noteq> [] \<and> fp = []) then None
         else (case (digits_value 0 ip, digits_value 0 fp) of
                 (Some a, Some b) \<Rightarrow>
                   Some ((if negative then - 1 else 1) * (of_nat a + of_nat b / 10 ^ length fp))
               | _ \<Rightarrow> None))"

text \<open>Digit strings and their values, for the proofs about the conversion.\<close>

definition all_digits :: "string \<Rightarrow> bool" where
  "all_digits s = list_all (\<lambda>c. digit_value c \<noteq> None) s"

fun digits_nat :: "string \<Rightarrow> nat" where
  "digits_nat [] = 0"
| "digits_nat (c # cs) =
     (case digit_value c of None \<Rightarrow> 0 | Some d \<Rightarrow> d) * 10 ^ length cs + digits_nat cs"

section \<open>Balances: the balance reader\<close>

text \<open>
  One entry of the array \<open>data\<close> of \<open>useReadContracts\<close>: a call that succeeded, with its
  typed result, or a call that failed. \<open>result\<close> is the field \<open>.result\<close>, which is
  \<open>undefined\<close> (here \<open>None\<close>) for a failed call.
\<close>

datatype 'a call_result = Succeeded 'a | FailedCall

definition result :: "'a call_result \<Rightarrow> 'a option" where
  "result c = (case c of Succeeded x \<Rightarrow> Some x | FailedCall \<Rightarrow> None)"

text \<open>
  The array \<open>data\<close> for the three contracts of the batch, typed by their ABI:
  \<open>data[0]\<close> for \<open>balanceOf\<close> (uint256, a bigint), \<open>data[1]\<close> for \<open>decimals\<close> (uint8, a
  number), \<open>data[2]\<close> for \<open>symbol\<close> (a string).
\<close>

record batch_data =
  balanceOf_call :: "int call_result"
  decimals_call :: "nat call_result"
  symbol_call :: "string call_result"

text \<open>What \<open>useReadContracts\<close> hands to one render; \<open>data\<close> is \<open>undefined\<close> until a batch returns.\<close>

record read_hooks =
  data :: "batch_data option"
  isError :: bool
  isLoading :: bool

record balances_state =
  balance :: string

text \<open>\<open>useState('0')\<close>.\<close>

definition Balances_init :: balances_state where
  "Balances_init = \<lparr>balance = ''0''\<rparr>"

text \<open>
  \<open>Number(x)\<close> for a number or \<open>undefined\<close>: the number itself, or \<open>NaN\<close> for
  \<open>Number(undefined)\<close>.
\<close>

datatype js_number = Num nat | NaN

definition Number :: "nat option \<Rightarrow> js_number" where
  "Number x = (case x of None \<Rightarrow> NaN | Some n \<Rightarrow> Num n)"

text \<open>
  The exceptions of the effect: the TypeError of JavaScript, and an error that the
  conversion library throws on its own.
\<close>

datatype js_exception = TypeError | LibraryError

text \<open>
  The call \<open>formatUnits(rawBalance, decimals)\<close> on the values the effect passes. With a
  number of decimals, an amount is converted, and an \<open>undefined\<close> amount makes the
  conversion, which starts with \<open>value.toString()\<close>, throw a TypeError. What the library
  does when the decimals are \<open>NaN\<close> is not told by the spec and differs between the
  versions that \<open>viem@2.x\<close> admits (a string, or an exception): it is the parameter
  \<open>nan\<close>, a function of the amount passed.
\<close>

type_synonym nan_conversion = "int option \<Rightarrow> js_exception + string"

definition formatUnits_call :: "nan_conversion \<Rightarrow> int option \<Rightarrow> js_number
    \<Rightarrow> js_exception + string" where
  "formatUnits_call nan rawBalance decimals =
     (case decimals of
        NaN \<Rightarrow> nan rawBalance
      | Num d \<Rightarrow>
          (case rawBalance of None \<Rightarrow> Inl TypeError | Some v \<Rightarrow> Inr (formatUnits v d)))"

text \<open>
  The effect of \<open>Balances\<close>, which depends on \<open>data\<close> alone. The entries \<open>data[0]\<close> and
  \<open>data[1]\<close> are objects, so the condition \<open>data && data[0] && data[1]\<close> holds exactly
  when \<open>data\<close> is defined. The cast \<open>as bigint\<close> checks nothing: for a failed
  \<open>balanceOf\<close> call the amount is \<open>undefined\<close>. If the conversion returns, the effect
  stores the converted amount.
\<close>

definition Balances_effect :: "nan_conversion \<Rightarrow> batch_data option \<Rightarrow> balances_state
    \<Rightarrow> js_exception + balances_state" where
  "Balances_effect nan dat s =
     (case dat of
        None \<Rightarrow> Inr s
      | Some d \<Rightarrow>
          (let rawBalance = result (balanceOf_call d);
               decimals = Number (result (decimals_call d))
           in case formatUnits_call nan rawBalance decimals of
                Inl e \<Rightarrow> Inl e
              | Inr formatted \<Rightarrow> Inr (s\<lparr>balance := formatted\<rparr>)))"

text \<open>
  What \<open>Balances\<close> returns: \<open>null\<close>, the paragraph "Loading balance...", the paragraph
  "Error fetching balance.", or the card, whose text is the state \<open>balance\<close> followed by
  the literal " IT".
\<close>

datatype balances_view =
  RenderNull
  | LoadingBalance
  | ErrorFetching
  | BalanceCard string

definition Balances_render :: "account \<Rightarrow> read_hooks \<Rightarrow> balances_state \<Rightarrow> balances_view" where
  "Balances_render a q s =
     (if \<not> isConnected a then RenderNull
      else if isLoading q then LoadingBalance
      else if isError q then ErrorFetching
      else BalanceCard (balance s @ '' IT''))"

text \<open>
  One mounted \<open>Balances\<close>: its state and the value of \<open>data\<close> at the last run of the
  effect (\<open>None\<close> before the first render).
\<close>

record balances_inst =
  bstate :: balances_state
  seen :: "batch_data option option"

definition Balances_mount :: balances_inst where
  "Balances_mount = \<lparr>bstate = Balances_init, seen = None\<rparr>"

text \<open>
  One update of the component for new hook values, as React carries it out: the component
  is rendered with the current state; then the effect runs if \<open>data\<close> is not the value it
  had at the last run; if the effect changed the state the component is rendered again
  (the effect does not run a second time, \<open>data\<close> being the same). The result lists the
  renders of the update in order; the last one is the settled view. An exception in the
  effect ends the component.
\<close>

definition Balances_commit :: "nan_conversion \<Rightarrow> account \<Rightarrow> read_hooks \<Rightarrow> balances_inst
    \<Rightarrow> js_exception + (balances_view list \<times> balances_inst)" where
  "Balances_commit nan a q i =
     (if seen i = Some (data q) then Inr ([Balances_render a q (bstate i)], i)
      else (case Balances_effect nan (data q) (bstate i) of
              Inl e \<Rightarrow> Inl e
            | Inr s \<Rightarrow>
                Inr ([Balances_render a q (bstate i)]
                     @ (if s = bstate i then [] else [Balances_render a q s]),
                     \<lparr>bstate = s, seen = Some (data q)\<rparr>)))"

text \<open>
  The state of an instance agrees with the data its effect saw last: running the effect
  on that data again would change nothing.
\<close>

definition inst_ok :: "nan_conversion \<Rightarrow> balances_inst \<Rightarrow> bool" where
  "inst_ok nan i =
     (case seen i of
        None \<Rightarrow> True
      | Some dat \<Rightarrow> Balances_effect nan dat (bstate i) = Inr (bstate i))"

text \<open>Whether all three calls of a batch succeeded.\<close>

definition all_succeeded :: "batch_data \<Rightarrow> bool" where
  "all_succeeded d =
     (result (balanceOf_call d) \<noteq> None \<and> result (decimals_call d) \<noteq> None
      \<and> result (symbol_call d) \<noteq> None)"

text \<open>
  Hook values and batches used below, and one choice for the parameter: a library that
  throws when the decimals are \<open>NaN\<close>.
\<close>

definition nan_throws :: nan_conversion where
  "nan_throws rawBalance = Inl LibraryError"

definition returned :: "batch_data \<Rightarrow> read_hooks" where
  "returned d = \<lparr>data = Some d, isError = False, isLoading = False\<rparr>"

definition batch_1000 :: "string call_result \<Rightarrow> batch_data" where
  "batch_1000 sy =
     \<lparr>balanceOf_call = Succeeded 1000000000000000000000, decimals_call = Succeeded 18,
      symbol_call = sy\<rparr>"

definition batch_zero :: batch_data where
  "batch_zero =
     \<lparr>balanceOf_call = Succeeded 0, decimals_call = Succeeded 18, symbol_call = Succeeded ''IT''\<rparr>"

definition batch_failed :: read_hooks where
  "batch_failed = \<lparr>data = None, isError = True, isLoading = False\<rparr>"

definition disconnected :: account where
  "disconnected = \<lparr>address = None, isConnected = False, chain = None\<rparr>"

definition batch_loading :: read_hooks where
  "batch_loading = \<lparr>data = None, isError = False, isLoading = True\<rparr>"

definition batch_half :: batch_data where
  "batch_half =
     \<lparr>balanceOf_call = Succeeded 500000000000000000, decimals_call = Succeeded 18,
      symbol_call = Succeeded ''IT''\<rparr>"

section \<open>The query layer\<close>

text \<open>
  Modelled from the spec: the query layer behind \<open>useReadContracts\<close> (wagmi and its query
  cache, whose sources are not part of the repository). Following the spec, the read is
  a function of the Account and is invoked again whenever the Account changes; a result
  that arrives for an Account that is no longer the current one is ignored; a batch either
  returns its per-call results or reports a failure; and the component sees one of
  loading, error and data. \<open>Pending\<close> is a fetch in flight for the current Account.
\<close>

datatype batch_outcome = BatchFailed | BatchReturned batch_data

datatype fetch_status = Pending | Settled batch_outcome

record query_layer =
  current :: "string option"
  status :: fetch_status

text \<open>
  The events of the layer: the wallet reports another Account (or none), and the fetch
  that was started for an Account resolves with an outcome.
\<close>

datatype query_event = SetAccount "string option" | Resolved string batch_outcome

fun query_step :: "query_event \<Rightarrow> query_layer \<Rightarrow> query_layer" where
  "query_step (SetAccount x) ql =
     (if x = current ql then ql else \<lparr>current = x, status = Pending\<rparr>)"
| "query_step (Resolved x out) ql =
     (if current ql = Some x \<and> status ql = Pending then ql\<lparr>status := Settled out\<rparr> else ql)"

definition query_hooks :: "query_layer \<Rightarrow> read_hooks" where
  "query_hooks ql =
     (case status ql of
        Pending \<Rightarrow> batch_loading
      | Settled BatchFailed \<Rightarrow> batch_failed
      | Settled (BatchReturned d) \<Rightarrow> returned d)"

definition query_account :: "query_layer \<Rightarrow> account" where
  "query_account ql = \<lparr>address = current ql, isConnected = (current ql \<noteq> None), chain = None\<rparr>"

text \<open>
  One mounted \<open>Balances\<close> on top of the layer, with every view it has rendered so far
  (the latest last). An event that changes what the hooks report makes React update the
  component; an event that changes nothing causes no render.
\<close>

record balances_sys =
  layer :: query_layer
  comp :: balances_inst
  rendered :: "balances_view list"

definition sys_step :: "nan_conversion \<Rightarrow> query_event \<Rightarrow> balances_sys
    \<Rightarrow> js_exception + balances_sys" where
  "sys_step nan e y =
     (let ql = query_step e (layer y)
      in if ql = layer y then Inr y
         else (case Balances_commit nan (query_account ql) (query_hooks ql) (comp y) of
                 Inl x \<Rightarrow> Inl x
               | Inr (views, i) \<Rightarrow> Inr \<lparr>layer = ql, comp = i, rendered = rendered y @ views\<rparr>))"

fun sys_run :: "nan_conversion \<Rightarrow> query_event list \<Rightarrow> balances_sys
    \<Rightarrow> js_exception + balances_sys" where
  "sys_run nan [] y = Inr y"
| "sys_run nan (e # es) y =
     (case sys_step nan e y of Inl x \<Rightarrow> Inl x | Inr z \<Rightarrow> sys_run nan es z)"

text \<open>The component after its first render for an Account whose fetch is in flight.\<close>

definition sys_mount :: "string option \<Rightarrow> balances_sys" where
  "sys_mount x =
     \<lparr>layer = \<lparr>current = x, status = Pending\<rparr>,
      comp = \<lparr>bstate = Balances_init, seen = Some None\<rparr>,
      rendered = [Balances_render (query_account \<lparr>current = x, status = Pending\<rparr>)
                    batch_loading Balances_init]\<rparr>"

text \<open>
  The views that a run has rendered beyond those of the state it started from, or the
  exception that ended it.
\<close>

definition rendered_since :: "balances_sys \<Rightarrow> js_exception + balances_sys
    \<Rightarrow> js_exception + balances_view list" where
  "rendered_since y r =
     (case r of Inl x \<Rightarrow> Inl x | Inr z \<Rightarrow> Inr (drop (length (rendered y)) (rendered z)))"

text \<open>
  The first outcome for an Account in a list of resolutions (Account and outcome), and
  the resolutions as events.
\<close>

fun first_for :: "string \<Rightarrow> (string \<times> batch_outcome) list \<Rightarrow> batch_outcome option" where
  "first_for x [] = None"
| "first_for x (r # rs) = (if fst r = x then Some (snd r) else first_for x rs)"

definition resolutions :: "(string \<times> batch_outcome) list \<Rightarrow> query_event list" where
  "resolutions rs = map (\<lambda>r. Resolved (fst r) (snd r)) rs"

text \<open>
  The views of the update that receives an outcome, for a connected component whose
  balance state is \<open>s\<close> and whose effect last saw no data: the error state for a failed
  batch; for a returned batch the card with the balance text of \<open>s\<close> and then, if the
  effect changed the state, the card with the new balance text.
\<close>

definition batch_views :: "nan_conversion \<Rightarrow> balances_state \<Rightarrow> batch_outcome
    \<Rightarrow> js_exception + balances_view list" where
  "batch_views nan s out =
     (case out of
        BatchFailed \<Rightarrow> Inr [ErrorFetching]
      | BatchReturned d \<Rightarrow>
          (case Balances_effect nan (Some d) s of
             Inl e \<Rightarrow> Inl e
           | Inr t \<Rightarrow>
               Inr ([BalanceCard (balance s @ '' IT'')]
                    @ (if t = s then [] else [BalanceCard (balance t @ '' IT'')]))))"

text \<open>
  The views after a change of the Account, given the balance state at the change and the
  first outcome for the new Account, if one has arrived: the loading state, followed by
  the views of the update that receives the outcome.
\<close>

definition views_after :: "nan_conversion \<Rightarrow> balances_state \<Rightarrow> batch_outcome option
    \<Rightarrow> js_exception + balances_view list" where
  "views_after nan s r =
     (case r of
        None \<Rightarrow> Inr [LoadingBalance]
      | Some out \<Rightarrow>
          (case batch_views nan s out of
             Inl e \<Rightarrow> Inl e
           | Inr vs \<Rightarrow> Inr (LoadingBalance # vs)))"

text \<open>The fetch for the Account \<open>x\<close> is in flight and the effect last saw no data.\<close>

definition waiting_for :: "string \<Rightarrow> balances_sys \<Rightarrow> bool" where
  "waiting_for x y =
     (current (layer y) = Some x \<and> status (layer y) = Pending \<and> seen (comp y) = Some None)"

text \<open>
  A state used below: the Account \<open>0xA\<close> had a batch converted to "1000", the wallet went
  to \<open>0xC\<close> and came back, and the new fetch for \<open>0xA\<close> is in flight.
\<close>

definition refetching_A :: balances_sys where
  "refetching_A =
     \<lparr>layer = \<lparr>current = Some ''0xA'', status = Pending\<rparr>,
      comp = \<lparr>bstate = \<lparr>balance = ''1000''\<rparr>, seen = Some None\<rparr>,
      rendered = [LoadingBalance, BalanceCard ''0 IT'', BalanceCard ''1000 IT'',
                  LoadingBalance, LoadingBalance]\<rparr>"

section \<open>Properties of App\<close>

text \<open>
  C1. For every connected state: when the chain id differs from 2810 the wrong-network
  paragraph is rendered and neither the balance view nor the faucet view is; when the
  chain id is 2810 both views are rendered (and the paragraph is not).
\<close>

theorem App_network_gate:
  "isConnected a \<Longrightarrow>
     (chain_id_opt a \<noteq> Some 2810 \<longrightarrow>
        Paragraph wrong_network_text \<in> set (App_render a)
        \<and> BalancesView \<notin> set (App_render a) \<and> FaucetView \<notin> set (App_render a))
     \<and> (chain_id_opt a = Some 2810 \<longrightarrow>
        BalancesView \<in> set (App_render a) \<and> FaucetView \<in> set (App_render a)
        \<and> Paragraph wrong_network_text \<notin> set (App_render a))"
  by (simp add: App_render_def)

theorem App_network_gate_witness:
  "isConnected (connected_on mainnet) \<and> chain_id_opt (connected_on mainnet) \<noteq> Some 2810
   \<and> Paragraph wrong_network_text \<in> set (App_render (connected_on mainnet))
   \<and> BalancesView \<notin> set (App_render (connected_on mainnet))
   \<and> FaucetView \<notin> set (App_render (connected_on mainnet))
   \<and> isConnected (connected_on morph_holesky)
   \<and> chain_id_opt (connected_on morph_holesky) = Some 2810
   \<and> BalancesView \<in> set (App_render (connected_on morph_holesky))
   \<and> FaucetView \<in> set (App_render (connected_on morph_holesky))"
proof -
  have c1: "isConnected (connected_on mainnet)"
    and c2: "isConnected (connected_on morph_holesky)"
    by (simp_all add: connected_on_def)
  have n1: "chain_id_opt (connected_on mainnet) \<noteq> Some 2810"
    by (simp add: chain_id_opt_def connected_on_def mainnet_def)
  have n2: "chain_id_opt (connected_on morph_holesky) = Some 2810"
    by (simp add: chain_id_opt_def connected_on_def morph_holesky_def)
  from App_network_gate [OF c1] App_network_gate [OF c2] c1 c2 n1 n2
  show ?thesis by blast
qed

subsection \<open>Switch requests\<close>

lemma deps_wrong_network_App_deps: "deps_wrong_network (App_deps r) = wrong_network (acct r)"
  by (simp add: deps_wrong_network_def App_deps_def wrong_network_def chain_id_opt_def)

lemma App_commit_cases:
  "App_commit prev r =
     (if deps_changed prev (App_deps r) \<and> wrong_network (acct r) then [SwitchChain 2810] else [])"
  by (simp add: App_commit_def App_effect_def wrong_network_def)

lemma App_run_replicate:
  "App_run prev rs = replicate (wrong_network_dep_changes prev rs) (SwitchChain 2810)"
  by (induction rs arbitrary: prev) (simp_all add: App_commit_cases)

lemma entering_changes_deps:
  "\<not> prev_wrong_network prev \<Longrightarrow> wrong_network (acct r) \<Longrightarrow> deps_changed prev (App_deps r)"
  by (auto simp: prev_wrong_network_def deps_changed_def deps_wrong_network_App_deps
      split: option.splits)

lemma entries_le_changes:
  "wrong_network_entries (prev_wrong_network prev) rs \<le> wrong_network_dep_changes prev rs"
proof (induction rs arbitrary: prev)
  case Nil
  show ?case by simp
next
  case (Cons r rs)
  have step: "prev_wrong_network (Some (App_deps r)) = wrong_network (acct r)"
    by (simp add: prev_wrong_network_def deps_wrong_network_App_deps)
  from Cons [of "Some (App_deps r)"] show ?case
    using entering_changes_deps [of prev r] by (auto simp: step)
qed

lemma ready_not_wrong: "network_ready a \<Longrightarrow> \<not> wrong_network a"
  by (simp add: network_ready_def wrong_network_def)

lemma App_run_ready: "\<forall>r\<in>set rs. network_ready (acct r) \<Longrightarrow> App_run prev rs = []"
  by (induction rs arbitrary: prev) (simp_all add: App_commit_cases ready_not_wrong)

text \<open>
  C3, as stated: over a sequence of renders the number of switch requests is the number
  of transitions into the wrong-network state. It fails when the wallet moves from one
  wrong network to another: the chain dependency changes, the effect runs again and a
  second request is issued, although the wrong-network state was entered once.
\<close>

theorem App_switch_per_transition_counterexample:
  "length (App_run None [render_on mainnet, render_on sepolia]) = 2
   \<and> wrong_network_entries False [render_on mainnet, render_on sepolia] = 1"
  by (simp add: App_commit_def App_effect_def deps_changed_def App_deps_def render_on_def
      connected_on_def mainnet_def sepolia_def chain_id_opt_def wrong_network_def)

text \<open>
  C3, amended. One switch request is issued at each render that is in the wrong-network
  state and whose dependencies (connection flag, chain, switch function) differ from
  those of the render before, and no other request is issued. So every transition into
  the wrong-network state issues exactly one request at that render, a render with
  unchanged dependencies issues none, and no request is issued over renders that stay at
  the target network; the transitions are at most as many as the requests.
\<close>

theorem App_switch_requests:
  "App_run prev rs = replicate (wrong_network_dep_changes prev rs) (SwitchChain 2810)
   \<and> wrong_network_entries (prev_wrong_network prev) rs \<le> length (App_run prev rs)
   \<and> (\<not> prev_wrong_network prev \<and> wrong_network (acct r) \<longrightarrow>
        App_commit prev r = [SwitchChain 2810])
   \<and> (prev = Some (App_deps r) \<longrightarrow> App_commit prev r = [])
   \<and> ((\<forall>q\<in>set rs. network_ready (acct q)) \<longrightarrow> App_run prev rs = [])"
proof -
  have "wrong_network_entries (prev_wrong_network prev) rs \<le> length (App_run prev rs)"
    using entries_le_changes [of prev rs] by (simp add: App_run_replicate)
  moreover have "\<not> prev_wrong_network prev \<and> wrong_network (acct r) \<longrightarrow>
      App_commit prev r = [SwitchChain 2810]"
    using entering_changes_deps [of prev r] by (simp add: App_commit_cases)
  moreover have "prev = Some (App_deps r) \<longrightarrow> App_commit prev r = []"
    by (simp add: App_commit_cases deps_changed_def)
  moreover have "(\<forall>q\<in>set rs. network_ready (acct q)) \<longrightarrow> App_run prev rs = []"
    using App_run_ready [of rs prev] by blast
  ultimately show ?thesis
    using App_run_replicate [of prev rs] by blast
qed

theorem App_switch_requests_witness:
  "\<not> prev_wrong_network None \<and> wrong_network (acct (render_on mainnet))
   \<and> App_commit None (render_on mainnet) = [SwitchChain 2810]
   \<and> App_commit (Some (App_deps (render_on mainnet))) (render_on mainnet) = []
   \<and> network_ready (acct (render_on morph_holesky))
   \<and> App_run (Some (App_deps (render_on mainnet)))
        [render_on morph_holesky, render_on morph_holesky] = []"
proof -
  have a: "\<not> prev_wrong_network None"
    by (simp add: prev_wrong_network_def)
  have b: "wrong_network (acct (render_on mainnet))"
    by (simp add: wrong_network_def render_on_def connected_on_def mainnet_def chain_id_opt_def)
  have c: "network_ready (acct (render_on morph_holesky))"
    by (simp add: network_ready_def render_on_def connected_on_def morph_holesky_def
        chain_id_opt_def)
  have d: "\<forall>q\<in>set [render_on morph_holesky, render_on morph_holesky]. network_ready (acct q)"
    using c by simp
  from App_switch_requests [of None "[]" "render_on mainnet"] a b
  have e: "App_commit None (render_on mainnet) = [SwitchChain 2810]" by blast
  from App_switch_requests [of "Some (App_deps (render_on mainnet))"
      "[render_on morph_holesky, render_on morph_holesky]" "render_on mainnet"] d
  have f: "App_commit (Some (App_deps (render_on mainnet))) (render_on mainnet) = []"
    and g: "App_run (Some (App_deps (render_on mainnet)))
        [render_on morph_holesky, render_on morph_holesky] = []"
    by blast+
  from a b c e f g show ?thesis by blast
qed

section \<open>Properties of Faucet\<close>

lemma busy_inv_mount: "busy_inv (Faucet_mount a sim w)"
  by (simp add: busy_inv_def Faucet_mount_def)

lemma busy_not_enabled: "busy_inv y \<Longrightarrow> 0 < outstanding y \<Longrightarrow> \<not> click_enabled y"
  by (simp add: busy_inv_def click_enabled_def Faucet_render_def)

lemma busy_inv_step: "busy_inv y \<Longrightarrow> busy_inv (Faucet_step e y)"
proof (cases e)
  case Click
  assume inv: "busy_inv y"
  show ?thesis
  proof (cases "click_enabled y")
    case True
    with inv busy_not_enabled [of y] have "outstanding y = 0" by auto
    with True Click show ?thesis
      by (simp add: busy_inv_def handleClaim_def)
  next
    case False
    with inv Click show ?thesis by simp
  qed
next
  case WriteSucceeded
  assume "busy_inv y"
  with WriteSucceeded show ?thesis by (auto simp: busy_inv_def onSuccess_def)
next
  case (WriteFailed x)
  assume "busy_inv y"
  with WriteFailed show ?thesis by (auto simp: busy_inv_def onError_def)
next
  case (AccountChanged a)
  assume "busy_inv y"
  with AccountChanged show ?thesis by (simp add: busy_inv_def)
next
  case (SimulationChanged b)
  assume "busy_inv y"
  with SimulationChanged show ?thesis by (simp add: busy_inv_def)
qed

lemma busy_inv_run: "busy_inv y \<Longrightarrow> busy_inv (Faucet_run es y)"
  by (induction es arbitrary: y) (simp_all add: busy_inv_step)

lemma busy_render:
  "busy_inv y \<Longrightarrow> 0 < outstanding y \<Longrightarrow>
   \<exists>v. Faucet_render (Faucet_hooks y) (fstate y) = Inr v \<and> button_disabled v
     \<and> message_paragraph v = None"
  by (simp add: busy_inv_def Faucet_render_def)

lemma message_step:
  "message (fstate (Faucet_step e y)) \<noteq> message (fstate y) \<Longrightarrow>
   is_resolution e \<or> message (fstate (Faucet_step e y)) = Text ''''"
  by (cases e) (auto simp: is_resolution_def handleClaim_def split: if_splits)

lemma busy_inv_reachable: "busy_inv (Faucet_run es (Faucet_mount a sim w))"
  by (rule busy_inv_run) (rule busy_inv_mount)

text \<open>
  C5. A click that reaches \<open>handleClaim\<close> sets the busy flag in the same step that
  submits the write, before any resolution. In every state the component can reach from
  its mount, at most one write is outstanding; while one is outstanding the busy flag is
  set, the button is rendered disabled, and a click changes nothing, so no second write
  is submitted.
\<close>

theorem Faucet_busy_guard:
  "loading (fst (handleClaim h s))
   \<and> (click_enabled y \<longrightarrow> loading (fstate (Faucet_step Click y)))
   \<and> outstanding (Faucet_run es (Faucet_mount a sim w)) \<le> 1
   \<and> (0 < outstanding (Faucet_run es (Faucet_mount a sim w)) \<longrightarrow>
        loading (fstate (Faucet_run es (Faucet_mount a sim w)))
        \<and> (\<exists>v. Faucet_render (Faucet_hooks (Faucet_run es (Faucet_mount a sim w)))
                  (fstate (Faucet_run es (Faucet_mount a sim w))) = Inr v
               \<and> button_disabled v)
        \<and> Faucet_step Click (Faucet_run es (Faucet_mount a sim w))
            = Faucet_run es (Faucet_mount a sim w))"
proof -
  define z where "z = Faucet_run es (Faucet_mount a sim w)"
  have inv: "busy_inv z"
    unfolding z_def by (rule busy_inv_reachable)
  have a: "loading (fst (handleClaim h s))"
    by (simp add: handleClaim_def)
  have b: "click_enabled y \<longrightarrow> loading (fstate (Faucet_step Click y))"
    by (simp add: handleClaim_def)
  have c: "outstanding z \<le> 1"
    using inv by (simp add: busy_inv_def)
  have d: "0 < outstanding z \<longrightarrow>
        loading (fstate z)
        \<and> (\<exists>v. Faucet_render (Faucet_hooks z) (fstate z) = Inr v \<and> button_disabled v)
        \<and> Faucet_step Click z = z"
  proof
    assume pos: "0 < outstanding z"
    from inv pos have "loading (fstate z)"
      by (simp add: busy_inv_def)
    moreover from busy_render [OF inv pos]
    have "\<exists>v. Faucet_render (Faucet_hooks z) (fstate z) = Inr v \<and> button_disabled v"
      by blast
    moreover from busy_not_enabled [OF inv pos] have "Faucet_step Click z = z"
      by simp
    ultimately show "loading (fstate z)
        \<and> (\<exists>v. Faucet_render (Faucet_hooks z) (fstate z) = Inr v \<and> button_disabled v)
        \<and> Faucet_step Click z = z"
      by blast
  qed
  from a b c d show ?thesis
    unfolding z_def by blast
qed

lemma mount_clickable: "click_enabled (Faucet_mount (connected_on morph_holesky) False True)"
  by (simp add: click_enabled_def Faucet_render_def Faucet_mount_def Faucet_hooks_def
      Faucet_init_def connected_on_def)

lemma after_click:
  "Faucet_run [Click] (Faucet_mount (connected_on morph_holesky) False True)
   = \<lparr>fstate = \<lparr>loading = True, message = Text ''''\<rparr>, wallet = connected_on morph_holesky,
      simulating = False, write_fn = True, outstanding = 1, submitted = 1\<rparr>"
  by (simp add: mount_clickable)
    (simp add: handleClaim_def Faucet_mount_def Faucet_hooks_def Faucet_init_def)

theorem Faucet_busy_guard_witness:
  "click_enabled (Faucet_mount (connected_on morph_holesky) False True)
   \<and> loading (fstate (Faucet_step Click (Faucet_mount (connected_on morph_holesky) False True)))
   \<and> 0 < outstanding (Faucet_run [Click] (Faucet_mount (connected_on morph_holesky) False True))
   \<and> submitted (Faucet_run [Click, Click, Click]
        (Faucet_mount (connected_on morph_holesky) False True)) = 1"
proof -
  let ?m = "Faucet_mount (connected_on morph_holesky) False True"
  have pos: "0 < outstanding (Faucet_run [Click] ?m)"
    by (simp only: after_click) simp
  from Faucet_busy_guard [of undefined undefined ?m "[Click]" "connected_on morph_holesky"
      False True] mount_clickable pos
  have l: "loading (fstate (Faucet_step Click ?m))"
    and stay: "Faucet_step Click (Faucet_run [Click] ?m) = Faucet_run [Click] ?m"
    by blast+
  have "Faucet_run [Click, Click, Click] ?m
      = Faucet_step Click (Faucet_step Click (Faucet_run [Click] ?m))"
    by simp
  also have "\<dots> = Faucet_run [Click] ?m"
    by (simp only: stay)
  finally have "submitted (Faucet_run [Click, Click, Click] ?m) = 1"
    by (simp only: after_click) simp
  with mount_clickable l pos show ?thesis by blast
qed

text \<open>
  C6, on the code. For every failed submission \<open>onError\<close> clears the busy flag, but it
  stores the error object itself as the message: the message is neither the reason text
  nor the fallback "Claim failed" that the tutorial's version of the callback sets, and
  the render that follows cannot show it.
\<close>

theorem Faucet_onError_stores_error_object:
  "loading (onError error s) = False
   \<and> message (onError error s) = ErrorObject error
   \<and> message (onError error s) \<noteq> message (onError_tutorial error s)
   \<and> message (onError_tutorial (WriteError None) s) = Text ''Claim failed''
   \<and> message (onError_tutorial (WriteError (Some ''cooldown not elapsed'')) s)
       = Text ''cooldown not elapsed''
   \<and> Faucet_render h (onError error s) = Inl ObjectAsChild"
  by (simp add: onError_def onError_tutorial_def error_message_or_def Faucet_render_def)

theorem Faucet_onError_stores_error_object_witness:
  "message (onError (WriteError None) Faucet_init) = ErrorObject (WriteError None)
   \<and> Faucet_render (Faucet_hooks (Faucet_mount (connected_on morph_holesky) False True))
        (onError (WriteError None) Faucet_init) = Inl ObjectAsChild"
  using Faucet_onError_stores_error_object [of "WriteError None" Faucet_init
      "Faucet_hooks (Faucet_mount (connected_on morph_holesky) False True)"]
  by blast

text \<open>
  C10. \<open>handleClaim\<close> clears the message in the step that submits the write. In every
  state the component can reach from its mount, while a write is outstanding the message
  is the empty string and no message paragraph is rendered. An event changes the
  message to something other than the empty string only if it is the resolution of the
  write.
\<close>

theorem Faucet_message_cleared_while_outstanding:
  "message (fst (handleClaim h s)) = Text ''''
   \<and> (0 < outstanding (Faucet_run es (Faucet_mount a sim w)) \<longrightarrow>
        message (fstate (Faucet_run es (Faucet_mount a sim w))) = Text ''''
        \<and> (\<exists>v. Faucet_render (Faucet_hooks (Faucet_run es (Faucet_mount a sim w)))
                  (fstate (Faucet_run es (Faucet_mount a sim w))) = Inr v
               \<and> message_paragraph v = None))
   \<and> (message (fstate (Faucet_step e y)) \<noteq> message (fstate y)
        \<and> message (fstate (Faucet_step e y)) \<noteq> Text '''' \<longrightarrow> is_resolution e)"
proof -
  define z where "z = Faucet_run es (Faucet_mount a sim w)"
  have inv: "busy_inv z"
    unfolding z_def by (rule busy_inv_reachable)
  have a: "message (fst (handleClaim h s)) = Text ''''"
    by (simp add: handleClaim_def)
  have b: "0 < outstanding z \<longrightarrow>
        message (fstate z) = Text ''''
        \<and> (\<exists>v. Faucet_render (Faucet_hooks z) (fstate z) = Inr v \<and> message_paragraph v = None)"
  proof
    assume pos: "0 < outstanding z"
    from inv pos have "message (fstate z) = Text ''''"
      by (simp add: busy_inv_def)
    moreover from busy_render [OF inv pos]
    have "\<exists>v. Faucet_render (Faucet_hooks z) (fstate z) = Inr v \<and> message_paragraph v = None"
      by blast
    ultimately show "message (fstate z) = Text ''''
        \<and> (\<exists>v. Faucet_render (Faucet_hooks z) (fstate z) = Inr v \<and> message_paragraph v = None)"
      by blast
  qed
  have c: "message (fstate (Faucet_step e y)) \<noteq> message (fstate y)
        \<and> message (fstate (Faucet_step e y)) \<noteq> Text '''' \<longrightarrow> is_resolution e"
    using message_step [of e y] by blast
  from a b c show ?thesis
    unfolding z_def by blast
qed

theorem Faucet_message_cleared_while_outstanding_witness:
  "0 < outstanding (Faucet_run [Click] (Faucet_mount (connected_on morph_holesky) False True))
   \<and> message (fstate (Faucet_run [Click]
        (Faucet_mount (connected_on morph_holesky) False True))) = Text ''''
   \<and> message (fstate (Faucet_step WriteSucceeded (Faucet_run [Click]
        (Faucet_mount (connected_on morph_holesky) False True)))) = Text ''Claim successful!''
   \<and> is_resolution WriteSucceeded"
proof -
  let ?m = "Faucet_mount (connected_on morph_holesky) False True"
  let ?z = "Faucet_run [Click] ?m"
  have pos: "0 < outstanding ?z"
    by (simp only: after_click) simp
  have msg: "message (fstate (Faucet_step WriteSucceeded ?z)) = Text ''Claim successful!''"
    by (simp only: after_click) (simp add: onSuccess_def)
  have old: "message (fstate ?z) = Text ''''"
    by (simp only: after_click) simp
  from msg old have ch: "message (fstate (Faucet_step WriteSucceeded ?z)) \<noteq> message (fstate ?z)
      \<and> message (fstate (Faucet_step WriteSucceeded ?z)) \<noteq> Text ''''"
    by simp
  from Faucet_message_cleared_while_outstanding [of undefined undefined "[Click]"
      "connected_on morph_holesky" False True WriteSucceeded ?z] pos ch
  have "message (fstate ?z) = Text ''''" and "is_resolution WriteSucceeded"
    by blast+
  with pos msg show ?thesis by blast
qed

section \<open>Properties of the conversion\<close>

lemma digit_value_digit_char: "n < 10 \<Longrightarrow> digit_value (digit_char n) = Some n"
proof -
  assume "n < 10"
  then have "n \<in> {0, 1, 2, 3, 4, 5, 6, 7, 8, 9}" by auto
  then show ?thesis
    by (auto simp: digit_char_def digit_value_def)
qed

lemma all_digits_append [simp]: "all_digits (xs @ ys) = (all_digits xs \<and> all_digits ys)"
  by (simp add: all_digits_def)

lemma all_digits_Nil [simp]: "all_digits []"
  by (simp add: all_digits_def)

lemma all_digits_Cons: "all_digits (c # cs) = (digit_value c \<noteq> None \<and> all_digits cs)"
  by (simp add: all_digits_def)

lemma all_digits_take: "all_digits xs \<Longrightarrow> all_digits (take k xs)"
  by (metis all_digits_append append_take_drop_id)

lemma all_digits_drop: "all_digits xs \<Longrightarrow> all_digits (drop k xs)"
  by (metis all_digits_append append_take_drop_id)

lemma all_digits_zeros [simp]: "all_digits (replicate k CHR ''0'')"
  by (induction k) (simp_all add: all_digits_Cons digit_value_def)

lemma digits_nat_append:
  "digits_nat (xs @ ys) = digits_nat xs * 10 ^ length ys + digits_nat ys"
  by (induction xs) (simp_all add: algebra_simps power_add)

lemma digits_nat_zeros [simp]: "digits_nat (replicate k CHR ''0'') = 0"
  by (induction k) (simp_all add: digit_value_def)

lemma digits_value_digits_nat:
  "all_digits xs \<Longrightarrow> digits_value acc xs = Some (acc * 10 ^ length xs + digits_nat xs)"
proof (induction xs arbitrary: acc)
  case Nil
  show ?case by simp
next
  case (Cons c cs)
  then obtain d where d: "digit_value c = Some d" and cs: "all_digits cs"
    by (auto simp: all_digits_Cons)
  from Cons.IH [OF cs, of "10 * acc + d"] d show ?case
    by (simp add: algebra_simps)
qed

lemma nat_toString_digits:
  "all_digits (nat_toString n) \<and> digits_nat (nat_toString n) = n \<and> nat_toString n \<noteq> []"
proof (induction n rule: nat_toString.induct)
  case (1 n)
  show ?case
  proof (cases "n < 10")
    case True
    then show ?thesis
      by (simp add: nat_toString.simps [of n] all_digits_Cons digit_value_digit_char)
  next
    case False
    have m: "n mod 10 < 10" by simp
    from False 1 have ih: "all_digits (nat_toString (n div 10))"
      "digits_nat (nat_toString (n div 10)) = n div 10" by simp_all
    from False ih show ?thesis
      by (simp add: nat_toString.simps [of n] digits_nat_append all_digits_Cons
          digit_value_digit_char [OF m])
  qed
qed

lemma strip_trailing_zeros_split:
  "\<exists>k. s = strip_trailing_zeros s @ replicate k CHR ''0''"
proof -
  let ?P = "\<lambda>c. c = CHR ''0''"
  have "rev s = takeWhile ?P (rev s) @ dropWhile ?P (rev s)" by simp
  then have "s = rev (dropWhile ?P (rev s)) @ rev (takeWhile ?P (rev s))"
    by (metis rev_append rev_rev_ident)
  moreover have "takeWhile ?P (rev s) = replicate (length (takeWhile ?P (rev s))) CHR ''0''"
    by (rule replicate_length_same [symmetric]) (auto dest: set_takeWhileD)
  ultimately have "s = strip_trailing_zeros s
      @ replicate (length (takeWhile ?P (rev s))) CHR ''0''"
    by (metis strip_trailing_zeros_def rev_replicate)
  then show ?thesis ..
qed

lemma digit_not_dot: "all_digits s \<Longrightarrow> CHR ''.'' \<notin> set s"
  by (auto simp: all_digits_def list_all_iff digit_value_def)

lemma digit_not_minus: "all_digits s \<Longrightarrow> \<not> startsWith_minus (s @ t) \<or> s = []"
  by (cases s) (auto simp: all_digits_Cons startsWith_minus_def digit_value_def)

lemma decimal_value_shape:
  assumes ip: "all_digits ip" "ip \<noteq> []" and fr: "all_digits fr"
  shows "decimal_value ((if neg then ''-'' else '''') @ ip
           @ (if fr = [] then [] else CHR ''.'' # fr))
         = Some ((if neg then - 1 else 1)
             * (of_nat (digits_nat ip) + of_nat (digits_nat fr) / 10 ^ length fr))"
proof -
  define rest where "rest = (if fr = [] then [] else CHR ''.'' # fr)"
  define s where "s = (if neg then ''-'' else '''') @ ip @ rest"
  have neg: "startsWith_minus s = neg"
    using digit_not_minus [OF ip(1), of rest] ip(2)
    by (cases neg) (simp_all add: startsWith_minus_def s_def)
  have body: "(if neg then drop 1 s else s) = ip @ rest"
    by (simp add: s_def)
  have nd: "\<forall>c\<in>set ip. c \<noteq> CHR ''.''"
    using digit_not_dot [OF ip(1)] by auto
  have tw: "takeWhile (\<lambda>c. c \<noteq> CHR ''.'') (ip @ rest) = ip"
    using nd by (simp add: rest_def takeWhile_append2 takeWhile_eq_all_conv)
  have dw: "dropWhile (\<lambda>c. c \<noteq> CHR ''.'') (ip @ rest) = rest"
    using nd by (simp add: rest_def dropWhile_append2)
  have fp: "drop 1 rest = fr"
    by (simp add: rest_def)
  have ok: "\<not> (ip = [] \<or> (rest \<noteq> [] \<and> fr = []))"
    using ip(2) by (simp add: rest_def)
  have v1: "digits_value 0 ip = Some (digits_nat ip)"
    using digits_value_digits_nat [OF ip(1), of 0] by simp
  have v2: "digits_value 0 fr = Some (digits_nat fr)"
    using digits_value_digits_nat [OF fr, of 0] by simp
  have "decimal_value s = Some ((if neg then - 1 else 1)
             * (of_nat (digits_nat ip) + of_nat (digits_nat fr) / 10 ^ length fr))"
    unfolding decimal_value_def Let_def neg body tw dw fp v1 v2
    using ok by simp
  then show ?thesis
    by (simp add: s_def rest_def)
qed

lemma formatUnits_shape:
  "\<exists>ip fr. formatUnits v d
       = (if v < 0 then ''-'' else '''') @ ip @ (if fr = [] then [] else CHR ''.'' # fr)
     \<and> all_digits ip \<and> ip \<noteq> [] \<and> all_digits fr
     \<and> (of_nat (digits_nat ip) + of_nat (digits_nat fr) / 10 ^ length fr :: rat)
         = of_nat (nat \<bar>v\<bar>) / 10 ^ d"
proof -
  define n where "n = nat \<bar>v\<bar>"
  define display where "display = padStart d (nat_toString n)"
  define cut where "cut = length display - d"
  define integer where "integer = take cut display"
  define fr0 where "fr0 = drop cut display"
  define fraction where "fraction = strip_trailing_zeros fr0"
  define ip where "ip = (if integer = [] then ''0'' else integer)"
  note ts = nat_toString_digits [of n]
  have neg: "startsWith_minus (bigint_toString v) = (v < 0)"
    using digit_not_minus [of "nat_toString (nat v)" "[]"] nat_toString_digits [of "nat v"]
    by (simp add: bigint_toString_def startsWith_minus_def)
  have d1: "(if v < 0 then drop 1 (bigint_toString v) else bigint_toString v) = nat_toString n"
    by (auto simp: bigint_toString_def n_def abs_if)
  have fu: "formatUnits v d
      = (if v < 0 then ''-'' else '''') @ ip @ (if fraction = [] then [] else CHR ''.'' # fraction)"
    unfolding formatUnits_def Let_def neg d1
    by (simp add: ip_def fraction_def fr0_def integer_def cut_def display_def)
  have disp: "all_digits display" "digits_nat display = n" "d \<le> length display"
    using ts by (simp_all add: display_def padStart_def digits_nat_append)
  have split: "display = integer @ fr0"
    by (simp add: integer_def fr0_def)
  have len0: "length fr0 = d"
    using disp(3) by (simp add: fr0_def cut_def)
  have int_d: "all_digits integer" and fr0_d: "all_digits fr0"
    using disp(1) by (simp_all add: integer_def fr0_def all_digits_take all_digits_drop)
  have nval: "n = digits_nat integer * 10 ^ d + digits_nat fr0"
    using disp(2) digits_nat_append [of integer fr0] by (simp add: split [symmetric] len0)
  obtain k where k: "fr0 = fraction @ replicate k CHR ''0''"
    using strip_trailing_zeros_split [of fr0] unfolding fraction_def by blast
  have fr_d: "all_digits fraction"
    using fr0_d k by (metis all_digits_append)
  have lenk: "d = length fraction + k"
    using len0 k by (metis length_append length_replicate)
  have fval: "digits_nat fr0 = digits_nat fraction * 10 ^ k"
    using digits_nat_append [of fraction "replicate k CHR ''0''"] k by simp
  have ip_d: "all_digits ip" "ip \<noteq> []" "digits_nat ip = digits_nat integer"
    using int_d by (auto simp: ip_def all_digits_Cons digit_value_def)
  have "(of_nat n :: rat) / 10 ^ d
      = of_nat (digits_nat integer) + of_nat (digits_nat fr0) / 10 ^ d"
    by (simp add: nval add_divide_distrib)
  also have "(of_nat (digits_nat fr0) :: rat) / 10 ^ d
      = of_nat (digits_nat fraction) / 10 ^ length fraction"
    by (simp add: fval lenk power_add)
  finally have "(of_nat (digits_nat ip) + of_nat (digits_nat fraction) / 10 ^ length fraction :: rat)
      = of_nat (nat \<bar>v\<bar>) / 10 ^ d"
    by (simp add: ip_d(3) n_def)
  with fu ip_d(1,2) fr_d show ?thesis by blast
qed

lemma formatUnits_exact: "decimal_value (formatUnits v d) = Some (of_int v / 10 ^ d)"
proof -
  obtain ip fr where s: "formatUnits v d
       = (if v < 0 then ''-'' else '''') @ ip @ (if fr = [] then [] else CHR ''.'' # fr)"
    and ip: "all_digits ip" "ip \<noteq> []" and fr: "all_digits fr"
    and val: "(of_nat (digits_nat ip) + of_nat (digits_nat fr) / 10 ^ length fr :: rat)
         = of_nat (nat \<bar>v\<bar>) / 10 ^ d"
    using formatUnits_shape [of v d] by blast
  have "(if v < 0 then - 1 else 1) * (of_nat (nat \<bar>v\<bar>) / 10 ^ d) = (of_int v :: rat) / 10 ^ d"
    by (simp add: abs_if)
  with decimal_value_shape [OF ip fr, of "v < 0"] show ?thesis
    by (simp add: s val)
qed

lemma nat_toString_0: "nat_toString 0 = ''0''"
  by (simp add: nat_toString.simps digit_char_def)

lemma nat_toString_10_21: "nat_toString 1000000000000000000000 = ''1000000000000000000000''"
  by (simp add: nat_toString.simps digit_char_def)

lemma formatUnits_10_21: "formatUnits 1000000000000000000000 18 = ''1000''"
  by (simp add: formatUnits_def bigint_toString_def nat_toString_10_21 startsWith_minus_def padStart_def
      strip_trailing_zeros_def)

lemma formatUnits_0: "formatUnits 0 18 = ''0''"
  by (simp add: formatUnits_def bigint_toString_def nat_toString_0 startsWith_minus_def padStart_def
      strip_trailing_zeros_def)

section \<open>Properties of Balances\<close>

lemma inst_ok_mount: "inst_ok nan Balances_mount"
  by (simp add: inst_ok_def Balances_mount_def)

lemma Balances_effect_converted:
  "balanceOf_call d = Succeeded v \<Longrightarrow> decimals_call d = Succeeded dec \<Longrightarrow>
   Balances_effect nan (Some d) s = Inr (s\<lparr>balance := formatUnits v dec\<rparr>)"
  by (simp add: Balances_effect_def Let_def result_def Number_def formatUnits_call_def)

lemma Balances_commit_last:
  "Balances_commit nan a q i = Inr (views, i') \<Longrightarrow>
   views \<noteq> [] \<and> last views = Balances_render a q (bstate i')
   \<and> (\<forall>x\<in>set views. \<exists>s. x = Balances_render a q s)"
  by (auto simp: Balances_commit_def split: if_splits sum.splits)

lemma Balances_commit_returned:
  assumes ok: "inst_ok nan i" and v: "balanceOf_call d = Succeeded v"
    and dec: "decimals_call d = Succeeded dec"
  shows "\<exists>views i'. Balances_commit nan a (returned d) i = Inr (views, i')
     \<and> balance (bstate i') = formatUnits v dec
     \<and> last views = Balances_render a (returned d) (bstate i') \<and> inst_ok nan i'"
proof (cases "seen i = Some (Some d)")
  case True
  with ok have "Balances_effect nan (Some d) (bstate i) = Inr (bstate i)"
    by (simp add: inst_ok_def)
  then have "balance (bstate i) = formatUnits v dec"
    using Balances_effect_converted [OF v dec, of nan "bstate i"]
    by (auto dest: arg_cong [where f = balance])
  with True ok show ?thesis
    by (simp add: Balances_commit_def returned_def)
next
  case False
  define s where "s = (bstate i)\<lparr>balance := formatUnits v dec\<rparr>"
  have eff: "Balances_effect nan (Some d) (bstate i) = Inr s"
    using Balances_effect_converted [OF v dec] by (simp add: s_def)
  have eff2: "Balances_effect nan (Some d) s = Inr s"
    using Balances_effect_converted [OF v dec, of nan s] by (simp add: s_def)
  from False eff have "Balances_commit nan a (returned d) i
      = Inr ([Balances_render a (returned d) (bstate i)]
             @ (if s = bstate i then [] else [Balances_render a (returned d) s]),
             \<lparr>bstate = s, seen = Some (Some d)\<rparr>)"
    by (simp add: Balances_commit_def returned_def)
  moreover have "inst_ok nan \<lparr>bstate = s, seen = Some (Some d)\<rparr>"
    using eff2 by (simp add: inst_ok_def)
  moreover have "balance s = formatUnits v dec"
    by (simp add: s_def)
  ultimately show ?thesis
    by auto
qed

lemma Balances_commit_mount_1000:
  "Balances_commit nan (connected_on morph_holesky) (returned (batch_1000 sy)) Balances_mount
   = Inr ([BalanceCard ''0 IT'', BalanceCard ''1000 IT''],
          \<lparr>bstate = \<lparr>balance = ''1000''\<rparr>, seen = Some (Some (batch_1000 sy))\<rparr>)"
  by (simp add: Balances_commit_def Balances_mount_def Balances_init_def returned_def
      Balances_effect_def batch_1000_def result_def Number_def formatUnits_call_def
      formatUnits_10_21 Balances_render_def connected_on_def)

text \<open>
  C2. For every returned batch whose \<open>balanceOf\<close> and \<open>decimals\<close> calls succeeded, an
  update of a connected component settles on the card whose text is the converted amount
  followed by " IT", and the converted amount, read back as a decimal numeral, is exactly
  the raw amount divided by \<open>10^decimals\<close>. For \<open>10^21\<close> at 18 decimals the text is
  "1000 IT", for 0 at 18 decimals it is "0 IT".
\<close>

theorem Balances_rendered_amount:
  "inst_ok nan i \<Longrightarrow> isConnected a \<Longrightarrow>
   (\<exists>views i'.
      Balances_commit nan a
        (returned \<lparr>balanceOf_call = Succeeded v, decimals_call = Succeeded dec,
                   symbol_call = sy\<rparr>) i = Inr (views, i')
      \<and> last views = BalanceCard (formatUnits v dec @ '' IT''))
   \<and> decimal_value (formatUnits v dec) = Some (of_int v / 10 ^ dec)
   \<and> formatUnits 1000000000000000000000 18 @ '' IT'' = ''1000 IT''
   \<and> formatUnits 0 18 @ '' IT'' = ''0 IT''"
proof -
  assume ok: "inst_ok nan i" and conn: "isConnected a"
  let ?d = "\<lparr>balanceOf_call = Succeeded v, decimals_call = Succeeded dec, symbol_call = sy\<rparr>"
  from Balances_commit_returned [OF ok, of ?d v dec a]
  obtain views i' where c: "Balances_commit nan a (returned ?d) i = Inr (views, i')"
    and b: "balance (bstate i') = formatUnits v dec"
    and l: "last views = Balances_render a (returned ?d) (bstate i')"
    by auto
  from l b conn have "last views = BalanceCard (formatUnits v dec @ '' IT'')"
    by (simp add: Balances_render_def returned_def)
  with c have "\<exists>views i'. Balances_commit nan a (returned ?d) i = Inr (views, i')
      \<and> last views = BalanceCard (formatUnits v dec @ '' IT'')"
    by blast
  then show ?thesis
    by (simp add: formatUnits_exact formatUnits_10_21 formatUnits_0)
qed

theorem Balances_rendered_amount_witness:
  "inst_ok nan_throws Balances_mount \<and> isConnected (connected_on morph_holesky)
   \<and> (\<exists>views i'.
        Balances_commit nan_throws (connected_on morph_holesky)
          (returned \<lparr>balanceOf_call = Succeeded 1000000000000000000000,
                     decimals_call = Succeeded 18, symbol_call = Succeeded ''IT''\<rparr>)
          Balances_mount = Inr (views, i')
        \<and> last views = BalanceCard ''1000 IT'')
   \<and> (\<exists>views i'.
        Balances_commit nan_throws (connected_on morph_holesky)
          (returned \<lparr>balanceOf_call = Succeeded 0,
                     decimals_call = Succeeded 18, symbol_call = Succeeded ''IT''\<rparr>)
          Balances_mount = Inr (views, i')
        \<and> last views = BalanceCard ''0 IT'')"
proof -
  have c: "isConnected (connected_on morph_holesky)"
    by (simp add: connected_on_def)
  have m: "inst_ok nan_throws Balances_mount"
    by (rule inst_ok_mount)
  from Balances_rendered_amount [OF m c, of 1000000000000000000000 18 "Succeeded ''IT''"]
    Balances_rendered_amount [OF m c, of 0 18 "Succeeded ''IT''"] m c
  show ?thesis
    by (simp add: formatUnits_10_21 formatUnits_0)
qed

text \<open>
  C4, as stated: a returned batch in which not all three calls succeeded is shown as the
  error state. It fails for a batch whose \<open>symbol\<close> call failed while the batch as a whole
  reports no failure: the component settles on the card "1000 IT". (The \<open>decimals\<close> call
  succeeded, so the choice for the parameter plays no part.)
\<close>

theorem Balances_partial_batch_counterexample:
  "\<not> all_succeeded (batch_1000 FailedCall)
   \<and> Balances_commit nan_throws (connected_on morph_holesky) (returned (batch_1000 FailedCall))
        Balances_mount
      = Inr ([BalanceCard ''0 IT'', BalanceCard ''1000 IT''],
             \<lparr>bstate = \<lparr>balance = ''1000''\<rparr>, seen = Some (Some (batch_1000 FailedCall))\<rparr>)"
  by (simp add: Balances_commit_mount_1000) (simp add: all_succeeded_def batch_1000_def result_def)

text \<open>
  C4, amended. A connected component shows one of three states, selected by the flags of
  the batch as a whole: loading when the query is loading, otherwise the error state when
  the batch reports a failure, otherwise the card with the balance text. An update with a
  failed batch settles on the error state, and an update with a returned batch whose three
  calls all succeeded settles on the card.
\<close>

theorem Balances_view_states:
  "isConnected a \<Longrightarrow>
   Balances_render a q s =
     (if isLoading q then LoadingBalance
      else if isError q then ErrorFetching
      else BalanceCard (balance s @ '' IT''))
   \<and> (isError q \<and> \<not> isLoading q \<longrightarrow>
        (\<forall>views i'. Balances_commit nan a q i = Inr (views, i') \<longrightarrow> last views = ErrorFetching))
   \<and> (inst_ok nan i \<and> all_succeeded d \<longrightarrow>
        (\<exists>views i' t. Balances_commit nan a (returned d) i = Inr (views, i')
           \<and> last views = BalanceCard t))"
proof -
  assume conn: "isConnected a"
  have r: "Balances_render a q s =
     (if isLoading q then LoadingBalance
      else if isError q then ErrorFetching
      else BalanceCard (balance s @ '' IT''))"
    using conn by (simp add: Balances_render_def)
  have e: "isError q \<and> \<not> isLoading q \<longrightarrow>
        (\<forall>views i'. Balances_commit nan a q i = Inr (views, i') \<longrightarrow> last views = ErrorFetching)"
    using conn by (auto dest!: Balances_commit_last simp: Balances_render_def)
  have g: "inst_ok nan i \<and> all_succeeded d \<longrightarrow>
        (\<exists>views i' t. Balances_commit nan a (returned d) i = Inr (views, i')
           \<and> last views = BalanceCard t)"
  proof
    assume h: "inst_ok nan i \<and> all_succeeded d"
    then obtain v where v: "balanceOf_call d = Succeeded v"
      by (cases "balanceOf_call d") (auto simp: all_succeeded_def result_def)
    from h obtain dec where dec: "decimals_call d = Succeeded dec"
      by (cases "decimals_call d") (auto simp: all_succeeded_def result_def)
    from Balances_commit_returned [OF _ v dec, of nan i a] h conn
    show "\<exists>views i' t. Balances_commit nan a (returned d) i = Inr (views, i')
           \<and> last views = BalanceCard t"
      by (auto simp: Balances_render_def returned_def)
  qed
  from r e g show ?thesis by blast
qed

theorem Balances_view_states_witness:
  "isConnected (connected_on morph_holesky)
   \<and> isError batch_failed \<and> \<not> isLoading batch_failed
   \<and> Balances_commit nan_throws (connected_on morph_holesky) batch_failed Balances_mount
       = Inr ([ErrorFetching], \<lparr>bstate = Balances_init, seen = Some None\<rparr>)
   \<and> last [ErrorFetching] = ErrorFetching
   \<and> inst_ok nan_throws Balances_mount \<and> all_succeeded batch_zero
   \<and> (\<exists>views i' t. Balances_commit nan_throws (connected_on morph_holesky) (returned batch_zero)
         Balances_mount = Inr (views, i') \<and> last views = BalanceCard t)"
proof -
  have c: "isConnected (connected_on morph_holesky)"
    by (simp add: connected_on_def)
  have f: "isError batch_failed \<and> \<not> isLoading batch_failed"
    by (simp add: batch_failed_def)
  have m: "Balances_commit nan_throws (connected_on morph_holesky) batch_failed Balances_mount
       = Inr ([ErrorFetching], \<lparr>bstate = Balances_init, seen = Some None\<rparr>)"
    by (simp add: Balances_commit_def Balances_mount_def batch_failed_def Balances_effect_def
        Balances_render_def connected_on_def)
  have z: "all_succeeded batch_zero"
    by (simp add: all_succeeded_def batch_zero_def result_def)
  have k: "inst_ok nan_throws Balances_mount"
    by (rule inst_ok_mount)
  from Balances_view_states [OF c, where q = batch_failed and nan = nan_throws
      and i = Balances_mount and d = batch_zero]
    f m k z c
  show ?thesis by auto
qed

text \<open>
  C7, as stated: the rendered text ends with the symbol that the \<open>symbol\<close> call returned.
  It fails for a token whose symbol is not "IT": with the symbol "USDC" the component
  settles on "1000 IT". (The \<open>decimals\<close> call succeeded, so the choice for the parameter
  plays no part.)
\<close>

theorem Balances_symbol_counterexample:
  "Balances_commit nan_throws (connected_on morph_holesky)
     (returned (batch_1000 (Succeeded ''USDC''))) Balances_mount
   = Inr ([BalanceCard ''0 IT'', BalanceCard ''1000 IT''],
          \<lparr>bstate = \<lparr>balance = ''1000''\<rparr>,
           seen = Some (Some (batch_1000 (Succeeded ''USDC'')))\<rparr>)
   \<and> \<not> suffix ''USDC'' ''1000 IT''"
  by (simp add: Balances_commit_mount_1000) (simp add: suffix_def)

text \<open>
  C7, amended. For every successful batched read the rendered text is the converted
  amount followed by the fixed literal " IT", whatever string the \<open>symbol\<close> call returned;
  it ends with the returned symbol when that symbol is "IT".
\<close>

theorem Balances_symbol_literal:
  "inst_ok nan i \<Longrightarrow> isConnected a \<Longrightarrow>
   \<exists>views i'.
      Balances_commit nan a
        (returned \<lparr>balanceOf_call = Succeeded v, decimals_call = Succeeded dec,
                   symbol_call = Succeeded sy\<rparr>) i = Inr (views, i')
      \<and> last views = BalanceCard ((formatUnits v dec @ '' '') @ ''IT'')
      \<and> (sy = ''IT'' \<longrightarrow> last views = BalanceCard ((formatUnits v dec @ '' '') @ sy))"
proof -
  assume ok: "inst_ok nan i" and conn: "isConnected a"
  let ?d = "\<lparr>balanceOf_call = Succeeded v, decimals_call = Succeeded dec,
             symbol_call = Succeeded sy\<rparr>"
  from Balances_commit_returned [OF ok, of ?d v dec a]
  obtain views i' where c: "Balances_commit nan a (returned ?d) i = Inr (views, i')"
    and b: "balance (bstate i') = formatUnits v dec"
    and l: "last views = Balances_render a (returned ?d) (bstate i')"
    by auto
  from l b conn have "last views = BalanceCard ((formatUnits v dec @ '' '') @ ''IT'')"
    by (simp add: Balances_render_def returned_def)
  with c show ?thesis by blast
qed

theorem Balances_symbol_literal_witness:
  "inst_ok nan_throws Balances_mount \<and> isConnected (connected_on morph_holesky)
   \<and> (\<exists>views i'.
        Balances_commit nan_throws (connected_on morph_holesky)
          (returned \<lparr>balanceOf_call = Succeeded 1000000000000000000000,
                     decimals_call = Succeeded 18, symbol_call = Succeeded ''IT''\<rparr>)
          Balances_mount = Inr (views, i')
        \<and> last views = BalanceCard ''1000 IT'')"
proof -
  have c: "isConnected (connected_on morph_holesky)"
    by (simp add: connected_on_def)
  have m: "inst_ok nan_throws Balances_mount"
    by (rule inst_ok_mount)
  from Balances_symbol_literal [OF m c, of 1000000000000000000000 18 "''IT''"] m c
  show ?thesis
    by (simp add: formatUnits_10_21)
qed

text \<open>
  C9. When the wallet is not connected, \<open>Balances\<close> returns \<open>null\<close>, whatever the query
  reports (loading, error or data): every render of every update is \<open>null\<close>, not the
  loading paragraph and not the error paragraph.
\<close>

theorem Balances_null_when_disconnected:
  "\<not> isConnected a \<Longrightarrow>
   Balances_render a q s = RenderNull
   \<and> (\<forall>views i'. Balances_commit nan a q i = Inr (views, i') \<longrightarrow>
        views \<noteq> [] \<and> set views = {RenderNull})"
proof -
  assume nc: "\<not> isConnected a"
  then have r: "\<And>s. Balances_render a q s = RenderNull"
    by (simp add: Balances_render_def)
  have "\<forall>views i'. Balances_commit nan a q i = Inr (views, i') \<longrightarrow>
        views \<noteq> [] \<and> set views = {RenderNull}"
    by (auto simp: Balances_commit_def r split: if_splits sum.splits)
  with r show ?thesis by blast
qed

theorem Balances_null_when_disconnected_witness:
  "\<not> isConnected disconnected
   \<and> Balances_render disconnected batch_loading Balances_init = RenderNull
   \<and> Balances_render disconnected batch_failed Balances_init = RenderNull
   \<and> Balances_commit nan_throws disconnected batch_loading Balances_mount
       = Inr ([RenderNull], \<lparr>bstate = Balances_init, seen = Some None\<rparr>)"
proof -
  have d: "\<not> isConnected disconnected"
    by (simp add: disconnected_def)
  have m: "Balances_commit nan_throws disconnected batch_loading Balances_mount
       = Inr ([Balances_render disconnected batch_loading Balances_init],
              \<lparr>bstate = Balances_init, seen = Some None\<rparr>)"
    by (simp add: Balances_commit_def Balances_mount_def batch_loading_def Balances_effect_def)
  from Balances_null_when_disconnected [OF d, of batch_loading Balances_init]
    Balances_null_when_disconnected [OF d, of batch_failed Balances_init] d m
  show ?thesis by simp
qed

section \<open>Properties of Balances on the query layer\<close>

lemma step_settled:
  "status (layer y) \<noteq> Pending \<Longrightarrow> sys_step nan (Resolved k out) y = Inr y"
  by (simp add: sys_step_def)

lemma step_other:
  "current (layer y) \<noteq> Some k \<Longrightarrow> sys_step nan (Resolved k out) y = Inr y"
  by (simp add: sys_step_def)

lemma run_settled:
  "status (layer y) \<noteq> Pending \<Longrightarrow> sys_run nan (resolutions rs) y = Inr y"
  by (induction rs) (simp_all add: resolutions_def step_settled)

lemma resolutions_Cons:
  "resolutions (r # rs) = Resolved (fst r) (snd r) # resolutions rs"
  by (simp add: resolutions_def)

lemma status_update_differs:
  "status ql = Pending \<Longrightarrow> ql\<lparr>status := Settled out\<rparr> \<noteq> ql"
  by (auto dest: arg_cong [where f = status])

lemma balance_update_same: "(s\<lparr>balance := t\<rparr> = s) = (balance s = t)"
  by (cases s) auto

lemma step_waiting:
  assumes w: "waiting_for x y"
  shows "case batch_views nan (bstate (comp y)) out of
           Inl e \<Rightarrow> sys_step nan (Resolved x out) y = Inl e
         | Inr vs \<Rightarrow>
             (\<exists>z. sys_step nan (Resolved x out) y = Inr z \<and> rendered z = rendered y @ vs
                \<and> status (layer z) \<noteq> Pending)"
proof -
  from w have cur: "current (layer y) = Some x" and st: "status (layer y) = Pending"
    and sn: "seen (comp y) = Some None"
    by (simp_all add: waiting_for_def)
  define ql where "ql = (layer y)\<lparr>status := Settled out\<rparr>"
  have q: "query_step (Resolved x out) (layer y) = ql"
    using cur st by (simp add: ql_def)
  have ne: "ql \<noteq> layer y"
    unfolding ql_def using st by (rule status_update_differs)
  have acc: "isConnected (query_account ql)"
    using cur by (simp add: query_account_def ql_def)
  have step: "sys_step nan (Resolved x out) y
      = (case Balances_commit nan (query_account ql) (query_hooks ql) (comp y) of
           Inl e \<Rightarrow> Inl e
         | Inr (views, i) \<Rightarrow> Inr \<lparr>layer = ql, comp = i, rendered = rendered y @ views\<rparr>)"
    unfolding sys_step_def q Let_def using ne by simp
  have stq: "status ql = Settled out"
    by (simp add: ql_def)
  show ?thesis
  proof (cases out)
    case BatchFailed
    then have h: "query_hooks ql = batch_failed"
      by (simp add: query_hooks_def stq)
    have "Balances_commit nan (query_account ql) batch_failed (comp y)
        = Inr ([ErrorFetching], comp y)"
      using sn acc by (simp add: Balances_commit_def batch_failed_def Balances_render_def)
    then have res: "sys_step nan (Resolved x out) y
        = Inr \<lparr>layer = ql, comp = comp y, rendered = rendered y @ [ErrorFetching]\<rparr>"
      by (simp add: step h)
    have bv: "batch_views nan (bstate (comp y)) out = Inr [ErrorFetching]"
      using BatchFailed by (simp add: batch_views_def)
    show ?thesis
      unfolding res bv by (simp add: stq)
  next
    case (BatchReturned d)
    then have h: "query_hooks ql = returned d"
      by (simp add: query_hooks_def stq)
    show ?thesis
    proof (cases "Balances_effect nan (Some d) (bstate (comp y))")
      case (Inl e)
      then have "Balances_commit nan (query_account ql) (returned d) (comp y) = Inl e"
        using sn by (simp add: Balances_commit_def returned_def)
      then have res: "sys_step nan (Resolved x out) y = Inl e"
        by (simp add: step h)
      have bv: "batch_views nan (bstate (comp y)) out = Inl e"
        using BatchReturned Inl by (simp add: batch_views_def)
      show ?thesis
        unfolding res bv by simp
    next
      case (Inr t)
      define vs where "vs
          = [BalanceCard (balance (bstate (comp y)) @ '' IT'')]
            @ (if t = bstate (comp y) then [] else [BalanceCard (balance t @ '' IT'')])"
      have r: "\<And>s. Balances_render (query_account ql) (returned d) s
          = BalanceCard (balance s @ '' IT'')"
        using acc by (simp add: Balances_render_def returned_def)
      have dr: "data (returned d) = Some d"
        by (simp add: returned_def)
      have c: "Balances_commit nan (query_account ql) (returned d) (comp y)
          = Inr (vs, \<lparr>bstate = t, seen = Some (Some d)\<rparr>)"
        using sn Inr by (simp add: Balances_commit_def r vs_def dr)
      have res: "sys_step nan (Resolved x out) y
          = Inr \<lparr>layer = ql, comp = \<lparr>bstate = t, seen = Some (Some d)\<rparr>,
                 rendered = rendered y @ vs\<rparr>"
        by (simp add: step h c)
      have bv: "batch_views nan (bstate (comp y)) out = Inr vs"
        using BatchReturned Inr by (simp add: batch_views_def vs_def)
      show ?thesis
        unfolding res bv by (simp add: stq)
    qed
  qed
qed

lemma step_waiting_settles:
  assumes w: "waiting_for x y" and z: "sys_step nan (Resolved x out) y = Inr z"
  shows "status (layer z) \<noteq> Pending"
proof (cases "batch_views nan (bstate (comp y)) out")
  case (Inl e)
  with step_waiting [OF w, of nan out] z show ?thesis by simp
next
  case (Inr vs)
  with step_waiting [OF w, of nan out] z show ?thesis by auto
qed

lemma run_waiting:
  "waiting_for x y \<Longrightarrow>
   sys_run nan (resolutions rs) y
   = (case first_for x rs of None \<Rightarrow> Inr y | Some out \<Rightarrow> sys_step nan (Resolved x out) y)"
proof (induction rs)
  case Nil
  show ?case by (simp add: resolutions_def)
next
  case (Cons r rs)
  show ?case
  proof (cases "fst r = x")
    case False
    with Cons.prems have "sys_step nan (Resolved (fst r) (snd r)) y = Inr y"
      by (simp add: step_other waiting_for_def)
    with False Cons show ?thesis
      by (simp add: resolutions_Cons)
  next
    case True
    show ?thesis
    proof (cases "sys_step nan (Resolved x (snd r)) y")
      case (Inl e)
      with True show ?thesis
        by (simp add: resolutions_Cons)
    next
      case (Inr z)
      from step_waiting_settles [OF Cons.prems Inr]
      have "sys_run nan (resolutions rs) z = Inr z"
        by (rule run_settled)
      with Inr True show ?thesis
        by (simp add: resolutions_Cons)
    qed
  qed
qed

lemma step_switch:
  assumes "current (layer y) \<noteq> Some b"
  shows "sys_step nan (SetAccount (Some b)) y
     = Inr \<lparr>layer = \<lparr>current = Some b, status = Pending\<rparr>,
            comp = \<lparr>bstate = bstate (comp y), seen = Some None\<rparr>,
            rendered = rendered y @ [LoadingBalance]\<rparr>"
proof -
  define ql where "ql = \<lparr>current = Some b, status = Pending\<rparr>"
  have q: "query_step (SetAccount (Some b)) (layer y) = ql"
    using assms by (auto simp: ql_def)
  have ne: "ql \<noteq> layer y"
    using assms by (auto simp: ql_def dest: arg_cong [where f = current])
  have h: "query_hooks ql = batch_loading"
    by (simp add: query_hooks_def ql_def)
  have r: "\<And>s. Balances_render (query_account ql) batch_loading s = LoadingBalance"
    by (simp add: Balances_render_def query_account_def ql_def batch_loading_def)
  have dl: "data batch_loading = None"
    by (simp add: batch_loading_def)
  have c: "Balances_commit nan (query_account ql) batch_loading (comp y)
      = Inr ([LoadingBalance], \<lparr>bstate = bstate (comp y), seen = Some None\<rparr>)"
    by (cases "comp y") (simp add: Balances_commit_def r dl Balances_effect_def)
  have "sys_step nan (SetAccount (Some b)) y
      = Inr \<lparr>layer = ql, comp = \<lparr>bstate = bstate (comp y), seen = Some None\<rparr>,
             rendered = rendered y @ [LoadingBalance]\<rparr>"
    unfolding sys_step_def q Let_def using ne by (simp add: h c)
  then show ?thesis
    by (simp only: ql_def)
qed

lemma views_after_switch:
  assumes "current (layer y) \<noteq> Some b"
  shows "rendered_since y (sys_run nan (SetAccount (Some b) # resolutions rs) y)
     = views_after nan (bstate (comp y)) (first_for b rs)"
proof -
  define w where "w = \<lparr>layer = \<lparr>current = Some b, status = Pending\<rparr>,
      comp = \<lparr>bstate = bstate (comp y), seen = Some None\<rparr>,
      rendered = rendered y @ [LoadingBalance]\<rparr>"
  have s: "sys_step nan (SetAccount (Some b)) y = Inr w"
    unfolding w_def using assms by (rule step_switch)
  have w: "waiting_for b w"
    by (simp add: waiting_for_def w_def)
  have rw: "rendered w = rendered y @ [LoadingBalance]"
    and bw: "bstate (comp w) = bstate (comp y)"
    by (simp_all add: w_def)
  have run: "sys_run nan (SetAccount (Some b) # resolutions rs) y
      = (case first_for b rs of
           None \<Rightarrow> Inr w
         | Some out \<Rightarrow> sys_step nan (Resolved b out) w)"
    using run_waiting [OF w, of nan rs] by (simp add: s)
  show ?thesis
  proof (cases "first_for b rs")
    case None
    then show ?thesis
      unfolding run by (simp add: rendered_since_def views_after_def rw)
  next
    case (Some out)
    show ?thesis
    proof (cases "batch_views nan (bstate (comp y)) out")
      case (Inl e)
      with step_waiting [OF w, of nan out] have "sys_step nan (Resolved b out) w = Inl e"
        by (simp add: bw)
      with Some Inl show ?thesis
        unfolding run by (simp add: rendered_since_def views_after_def)
    next
      case (Inr vs)
      with step_waiting [OF w, of nan out] obtain z
        where z: "sys_step nan (Resolved b out) w = Inr z"
          and rz: "rendered z = rendered w @ vs"
        by (auto simp: bw)
      from Some Inr z show ?thesis
        unfolding run by (simp add: rendered_since_def views_after_def rz rw)
    qed
  qed
qed

lemma step_current:
  "sys_step nan (Resolved k out) y = Inr z \<Longrightarrow> current (layer z) = current (layer y)"
  by (auto simp: sys_step_def Let_def split: if_splits sum.splits)

lemma run_drop_stale:
  "current (layer y) \<noteq> Some a \<Longrightarrow>
   sys_run nan (resolutions rs) y
   = sys_run nan (resolutions (filter (\<lambda>r. fst r \<noteq> a) rs)) y"
proof (induction rs arbitrary: y)
  case Nil
  show ?case by simp
next
  case (Cons r rs)
  show ?case
  proof (cases "fst r = a")
    case True
    with Cons.prems have "sys_step nan (Resolved (fst r) (snd r)) y = Inr y"
      by (simp add: step_other)
    with True Cons show ?thesis
      by (simp add: resolutions_Cons)
  next
    case False
    show ?thesis
    proof (cases "sys_step nan (Resolved (fst r) (snd r)) y")
      case (Inl e)
      with False show ?thesis by (simp add: resolutions_Cons)
    next
      case (Inr z)
      with Cons.prems have "current (layer z) \<noteq> Some a"
        by (simp add: step_current)
      from Cons.IH [OF this] Inr False show ?thesis
        by (simp add: resolutions_Cons)
    qed
  qed
qed

lemma views_after_converted:
  "balanceOf_call d = Succeeded v \<Longrightarrow> decimals_call d = Succeeded dec \<Longrightarrow>
   views_after nan s (Some (BatchReturned d))
   = Inr ([LoadingBalance, BalanceCard (balance s @ '' IT'')]
          @ (if balance s = formatUnits v dec then []
             else [BalanceCard (formatUnits v dec @ '' IT'')]))"
  by (simp add: views_after_def batch_views_def Balances_effect_converted balance_update_same)

lemma formatUnits_half: "formatUnits 500000000000000000 18 = ''0.5''"
proof -
  have "nat_toString 500000000000000000 = ''500000000000000000''"
    by (simp add: nat_toString.simps digit_char_def)
  then show ?thesis
    by (simp add: formatUnits_def bigint_toString_def startsWith_minus_def padStart_def
        strip_trailing_zeros_def)
qed

lemma views_after_half:
  "views_after nan s (Some (BatchReturned batch_half))
   = Inr ([LoadingBalance, BalanceCard (balance s @ '' IT'')]
          @ (if balance s = ''0.5'' then [] else [BalanceCard ''0.5 IT'']))"
  using views_after_converted [of batch_half 500000000000000000 18 nan s]
  by (simp add: batch_half_def formatUnits_half)

lemma reach_refetching_A:
  "sys_run nan
     [Resolved ''0xA'' (BatchReturned (batch_1000 (Succeeded ''IT''))),
      SetAccount (Some ''0xC''), SetAccount (Some ''0xA'')]
     (sys_mount (Some ''0xA''))
   = Inr refetching_A"
proof -
  let ?b = "batch_1000 (Succeeded ''IT'')"
  have m: "sys_mount (Some ''0xA'')
      = \<lparr>layer = \<lparr>current = Some ''0xA'', status = Pending\<rparr>,
         comp = \<lparr>bstate = Balances_init, seen = Some None\<rparr>,
         rendered = [LoadingBalance]\<rparr>"
    by (simp add: sys_mount_def Balances_render_def query_account_def batch_loading_def)
  have s1: "sys_step nan (Resolved ''0xA'' (BatchReturned ?b)) (sys_mount (Some ''0xA''))
      = Inr \<lparr>layer = \<lparr>current = Some ''0xA'', status = Settled (BatchReturned ?b)\<rparr>,
             comp = \<lparr>bstate = \<lparr>balance = ''1000''\<rparr>, seen = Some (Some ?b)\<rparr>,
             rendered = [LoadingBalance, BalanceCard ''0 IT'', BalanceCard ''1000 IT'']\<rparr>"
    by (simp add: m sys_step_def query_hooks_def query_account_def Balances_commit_def
        returned_def Balances_effect_def Balances_render_def Balances_init_def
        result_def Number_def formatUnits_call_def batch_1000_def formatUnits_10_21)
  have s2: "sys_step nan (SetAccount (Some ''0xC''))
        \<lparr>layer = \<lparr>current = Some ''0xA'', status = Settled (BatchReturned ?b)\<rparr>,
         comp = \<lparr>bstate = \<lparr>balance = ''1000''\<rparr>, seen = Some (Some ?b)\<rparr>,
         rendered = [LoadingBalance, BalanceCard ''0 IT'', BalanceCard ''1000 IT'']\<rparr>
      = Inr \<lparr>layer = \<lparr>current = Some ''0xC'', status = Pending\<rparr>,
             comp = \<lparr>bstate = \<lparr>balance = ''1000''\<rparr>, seen = Some None\<rparr>,
             rendered = [LoadingBalance, BalanceCard ''0 IT'', BalanceCard ''1000 IT'',
                         LoadingBalance]\<rparr>"
    by (simp add: step_switch)
  have s3: "sys_step nan (SetAccount (Some ''0xA''))
        \<lparr>layer = \<lparr>current = Some ''0xC'', status = Pending\<rparr>,
         comp = \<lparr>bstate = \<lparr>balance = ''1000''\<rparr>, seen = Some None\<rparr>,
         rendered = [LoadingBalance, BalanceCard ''0 IT'', BalanceCard ''1000 IT'',
                     LoadingBalance]\<rparr>
      = Inr refetching_A"
    by (simp add: step_switch refetching_A_def)
  show ?thesis
    by (simp add: s1 s2 s3)
qed

text \<open>
  C8, as stated: after the Account changes from \<open>a\<close> to \<open>b\<close> while a fetch for \<open>a\<close> is in
  flight, only the result for \<open>b\<close>, or a loading or error state for \<open>b\<close>, is rendered. It
  fails in the update that receives the batch for \<open>b\<close>, whose first render shows the
  balance text stored before. From the state \<open>refetching_A\<close>, which the first run reaches
  and in which the amount converted for \<open>0xA\<close> is "1000", the views after the change to
  \<open>0xB\<close> are the loading state, the card "1000 IT" and only then the card "0.5 IT" of
  \<open>0xB\<close>. From the mount, where no batch has been converted, the card "0 IT" takes the
  place of "1000 IT". (No \<open>decimals\<close> call fails here, so the choice for the parameter
  plays no part.)
\<close>

theorem Balances_stale_render_counterexample:
  "sys_run nan_throws
     [Resolved ''0xA'' (BatchReturned (batch_1000 (Succeeded ''IT''))),
      SetAccount (Some ''0xC''), SetAccount (Some ''0xA'')]
     (sys_mount (Some ''0xA'')) = Inr refetching_A
   \<and> rendered_since refetching_A
        (sys_run nan_throws
           [SetAccount (Some ''0xB''),
            Resolved ''0xA'' (BatchReturned batch_zero),
            Resolved ''0xB'' (BatchReturned batch_half)]
           refetching_A)
      = Inr [LoadingBalance, BalanceCard ''1000 IT'', BalanceCard ''0.5 IT'']
   \<and> rendered_since (sys_mount (Some ''0xA''))
        (sys_run nan_throws
           [SetAccount (Some ''0xB''),
            Resolved ''0xA'' (BatchReturned (batch_1000 (Succeeded ''IT''))),
            Resolved ''0xB'' (BatchReturned batch_half)]
           (sys_mount (Some ''0xA'')))
      = Inr [LoadingBalance, BalanceCard ''0 IT'', BalanceCard ''0.5 IT'']"
proof -
  have a: "current (layer refetching_A) \<noteq> Some ''0xB''"
    by (simp add: refetching_A_def)
  have b: "current (layer (sys_mount (Some ''0xA''))) \<noteq> Some ''0xB''"
    by (simp add: sys_mount_def)
  have r1: "SetAccount (Some ''0xB'')
        # resolutions [(''0xA'', BatchReturned batch_zero), (''0xB'', BatchReturned batch_half)]
      = [SetAccount (Some ''0xB''), Resolved ''0xA'' (BatchReturned batch_zero),
         Resolved ''0xB'' (BatchReturned batch_half)]"
    by (simp add: resolutions_def)
  have r2: "SetAccount (Some ''0xB'')
        # resolutions [(''0xA'', BatchReturned (batch_1000 (Succeeded ''IT''))),
                       (''0xB'', BatchReturned batch_half)]
      = [SetAccount (Some ''0xB''),
         Resolved ''0xA'' (BatchReturned (batch_1000 (Succeeded ''IT''))),
         Resolved ''0xB'' (BatchReturned batch_half)]"
    by (simp add: resolutions_def)
  from views_after_switch [OF a, of nan_throws
      "[(''0xA'', BatchReturned batch_zero), (''0xB'', BatchReturned batch_half)]"]
  have c2: "rendered_since refetching_A
        (sys_run nan_throws
           [SetAccount (Some ''0xB''), Resolved ''0xA'' (BatchReturned batch_zero),
            Resolved ''0xB'' (BatchReturned batch_half)]
           refetching_A)
      = Inr [LoadingBalance, BalanceCard ''1000 IT'', BalanceCard ''0.5 IT'']"
    unfolding r1 by (simp add: views_after_half) (simp add: refetching_A_def)
  from views_after_switch [OF b, of nan_throws
      "[(''0xA'', BatchReturned (batch_1000 (Succeeded ''IT''))),
        (''0xB'', BatchReturned batch_half)]"]
  have c3: "rendered_since (sys_mount (Some ''0xA''))
        (sys_run nan_throws
           [SetAccount (Some ''0xB''),
            Resolved ''0xA'' (BatchReturned (batch_1000 (Succeeded ''IT''))),
            Resolved ''0xB'' (BatchReturned batch_half)]
           (sys_mount (Some ''0xA'')))
      = Inr [LoadingBalance, BalanceCard ''0 IT'', BalanceCard ''0.5 IT'']"
    unfolding r2 by (simp add: views_after_half) (simp add: sys_mount_def Balances_init_def)
  from reach_refetching_A [of nan_throws] c2 c3 show ?thesis
    by blast
qed

text \<open>
  C8, amended. Let the Account be \<open>a\<close> and change to another Account \<open>b\<close>; then let any
  results arrive, for \<open>a\<close>, for \<open>b\<close> or for other Accounts, in any order. A result that
  arrives for \<open>a\<close> after the change is ignored: it changes nothing and renders nothing, and
  the whole run, with every view it renders, is the same as the run without the results
  for \<open>a\<close>. The views rendered after the change are the loading state and then, when the
  first result for \<open>b\<close> arrives, the error state if that batch failed; if it returned
  with an amount and a number of decimals, first the card with the balance text that was
  stored before the change (the initial "0", or an amount converted earlier) and then,
  once the effect has run, the card with the amount converted from the batch for \<open>b\<close>
  (no second card when the two texts are the same).
\<close>

theorem Balances_ignores_stale_result:
  "current (layer y) = Some a \<Longrightarrow> a \<noteq> b \<Longrightarrow>
   rendered_since y (sys_run nan (SetAccount (Some b) # resolutions rs) y)
     = views_after nan (bstate (comp y)) (first_for b rs)
   \<and> sys_run nan (SetAccount (Some b) # resolutions rs) y
       = sys_run nan (SetAccount (Some b) # resolutions (filter (\<lambda>r. fst r \<noteq> a) rs)) y
   \<and> (current (layer z) \<noteq> Some a \<longrightarrow> sys_step nan (Resolved a out) z = Inr z)
   \<and> views_after nan s None = Inr [LoadingBalance]
   \<and> views_after nan s (Some BatchFailed) = Inr [LoadingBalance, ErrorFetching]
   \<and> (balanceOf_call d = Succeeded v \<and> decimals_call d = Succeeded dec \<longrightarrow>
        views_after nan s (Some (BatchReturned d))
        = Inr ([LoadingBalance, BalanceCard (balance s @ '' IT'')]
               @ (if balance s = formatUnits v dec then []
                  else [BalanceCard (formatUnits v dec @ '' IT'')])))"
proof -
  assume cur: "current (layer y) = Some a" and ne: "a \<noteq> b"
  then have nb: "current (layer y) \<noteq> Some b" by simp
  have c1: "rendered_since y (sys_run nan (SetAccount (Some b) # resolutions rs) y)
     = views_after nan (bstate (comp y)) (first_for b rs)"
    using nb by (rule views_after_switch)
  have "current (layer \<lparr>layer = \<lparr>current = Some b, status = Pending\<rparr>,
            comp = \<lparr>bstate = bstate (comp y), seen = Some None\<rparr>,
            rendered = rendered y @ [LoadingBalance]\<rparr>) \<noteq> Some a"
    using ne by simp
  from run_drop_stale [OF this, of nan rs]
  have c2: "sys_run nan (SetAccount (Some b) # resolutions rs) y
       = sys_run nan (SetAccount (Some b) # resolutions (filter (\<lambda>r. fst r \<noteq> a) rs)) y"
    by (simp add: step_switch [OF nb])
  have c3: "current (layer z) \<noteq> Some a \<longrightarrow> sys_step nan (Resolved a out) z = Inr z"
    by (simp add: step_other)
  have c4: "views_after nan s None = Inr [LoadingBalance]"
    and c5: "views_after nan s (Some BatchFailed) = Inr [LoadingBalance, ErrorFetching]"
    by (simp_all add: views_after_def batch_views_def)
  have c6: "balanceOf_call d = Succeeded v \<and> decimals_call d = Succeeded dec \<longrightarrow>
        views_after nan s (Some (BatchReturned d))
        = Inr ([LoadingBalance, BalanceCard (balance s @ '' IT'')]
               @ (if balance s = formatUnits v dec then []
                  else [BalanceCard (formatUnits v dec @ '' IT'')]))"
    using views_after_converted [of d v dec nan s] by blast
  from c1 c2 c3 c4 c5 c6 show ?thesis by blast
qed

theorem Balances_ignores_stale_result_witness:
  "current (layer (sys_mount (Some ''0xA''))) = Some ''0xA'' \<and> ''0xA'' \<noteq> ''0xB''
   \<and> rendered_since (sys_mount (Some ''0xA''))
        (sys_run nan_throws
           [SetAccount (Some ''0xB''),
            Resolved ''0xA'' (BatchReturned (batch_1000 (Succeeded ''IT''))),
            Resolved ''0xB'' (BatchReturned batch_half)]
           (sys_mount (Some ''0xA'')))
      = Inr [LoadingBalance, BalanceCard ''0 IT'', BalanceCard ''0.5 IT'']
   \<and> current (layer (sys_mount (Some ''0xB''))) \<noteq> Some ''0xA''
   \<and> sys_step nan_throws (Resolved ''0xA'' (BatchReturned batch_zero)) (sys_mount (Some ''0xB''))
       = Inr (sys_mount (Some ''0xB''))
   \<and> balanceOf_call batch_half = Succeeded 500000000000000000
   \<and> decimals_call batch_half = Succeeded 18"
proof -
  define rs where "rs = [(''0xA'', BatchReturned (batch_1000 (Succeeded ''IT''))),
      (''0xB'', BatchReturned batch_half)]"
  have c: "current (layer (sys_mount (Some ''0xA''))) = Some ''0xA''"
    by (simp add: sys_mount_def)
  have n: "''0xA'' \<noteq> ''0xB''"
    by simp
  have o: "current (layer (sys_mount (Some ''0xB''))) \<noteq> Some ''0xA''"
    by (simp add: sys_mount_def)
  have h: "balanceOf_call batch_half = Succeeded 500000000000000000
      \<and> decimals_call batch_half = Succeeded 18"
    by (simp add: batch_half_def)
  have e: "SetAccount (Some ''0xB'') # resolutions rs
      = [SetAccount (Some ''0xB''),
         Resolved ''0xA'' (BatchReturned (batch_1000 (Succeeded ''IT''))),
         Resolved ''0xB'' (BatchReturned batch_half)]"
    by (simp add: resolutions_def rs_def)
  have f: "first_for ''0xB'' rs = Some (BatchReturned batch_half)"
    by (simp add: rs_def)
  have s0: "bstate (comp (sys_mount (Some ''0xA''))) = \<lparr>balance = ''0''\<rparr>"
    by (simp add: sys_mount_def Balances_init_def)
  note t = Balances_ignores_stale_result [OF c n, where nan = nan_throws and rs = rs
      and z = "sys_mount (Some ''0xB'')" and out = "BatchReturned batch_zero"
      and s = "\<lparr>balance = ''0''\<rparr>" and d = batch_half and v = 500000000000000000
      and dec = 18]
  from t h have va: "views_after nan_throws \<lparr>balance = ''0''\<rparr> (Some (BatchReturned batch_half))
      = Inr ([LoadingBalance, BalanceCard (balance \<lparr>balance = ''0''\<rparr> @ '' IT'')]
             @ (if balance \<lparr>balance = ''0''\<rparr> = formatUnits 500000000000000000 18 then []
                else [BalanceCard (formatUnits 500000000000000000 18 @ '' IT'')]))"
    by blast
  from t have "rendered_since (sys_mount (Some ''0xA''))
        (sys_run nan_throws (SetAccount (Some ''0xB'') # resolutions rs)
           (sys_mount (Some ''0xA'')))
      = views_after nan_throws (bstate (comp (sys_mount (Some ''0xA''))))
          (first_for ''0xB'' rs)"
    by blast
  then have r: "rendered_since (sys_mount (Some ''0xA''))
        (sys_run nan_throws
           [SetAccount (Some ''0xB''),
            Resolved ''0xA'' (BatchReturned (batch_1000 (Succeeded ''IT''))),
            Resolved ''0xB'' (BatchReturned batch_half)]
           (sys_mount (Some ''0xA'')))
      = Inr [LoadingBalance, BalanceCard ''0 IT'', BalanceCard ''0.5 IT'']"
    unfolding e f s0 va by (simp add: formatUnits_half)
  from t o have st: "sys_step nan_throws (Resolved ''0xA'' (BatchReturned batch_zero))
        (sys_mount (Some ''0xB''))
       = Inr (sys_mount (Some ''0xB''))"
    by blast
  from c n r o st h show ?thesis by blast
qed

end
